theory Spec2Isabelle
  imports Main "HOL-Library.Sublist" "HOL-Library.Word"
begin

section \<open>Cortex operator: API validation and the operator's cron jobs\<close>

text \<open>
  A shallow embedding of the Go package \<open>operator\<close>: the validation of an API
  manifest (\<open>ExtractAPIConfigs\<close>, \<open>validateAPIs\<close>, \<open>validateAPI\<close> and the
  checks below them) and the periodic jobs of \<open>cron.go\<close> (\<open>updateHPAs\<close>,
  \<open>numUpdatedReadyReplicas\<close>, \<open>telemetryCron\<close>).

  Conventions.
  \<^item> A Go pointer that may be \<open>nil\<close> is an \<open>option\<close>; dereferencing \<open>None\<close> is the
    runtime panic \<open>PanicNilPointerDereference\<close>. (\<open>api.Predictor\<close> and \<open>api.Compute\<close>
    are always set by the schema; they are plain records.)
  \<^item> A Go \<open>error\<close> result is \<open>error option\<close> (\<open>None\<close> is \<open>nil\<close>); a result with a
    value is \<open>error + 'a\<close>.
  \<^item> Mutation through a pointer is state passing: the function returns the new value.
  \<^item> Object storage, the Kubernetes API server and the libraries that are not part of
    the two source files are parameters: records of the answers they give.
  \<^item> Some functions of the source end without a \<open>return\<close> on their success path
    (\<open>validateAPIs\<close>, \<open>validateONNXPredictor\<close>, \<open>telemetryCron\<close>, the second
    closure of \<open>getValidationK8sResources\<close>); falling off the end is modelled as
    returning \<open>nil\<close>.
\<close>

subsection \<open>Go string functions\<close>

text \<open>\<open>strings.HasPrefix(s, p)\<close> and \<open>strings.HasSuffix(s, p)\<close>.\<close>

definition HasPrefix :: "string \<Rightarrow> string \<Rightarrow> bool" where
  "HasPrefix s p = prefix p s"

definition HasSuffix :: "string \<Rightarrow> string \<Rightarrow> bool" where
  "HasSuffix s p = prefix (rev p) (rev s)"

text \<open>\<open>strings.Split(s, sep)\<close> for a one-character separator: always at least one part.\<close>

fun Split :: "string \<Rightarrow> char \<Rightarrow> string list" where
  "Split [] sep = [[]]"
| "Split (c # cs) sep =
     (if c = sep then [] # Split cs sep
      else (case Split cs sep of [] \<Rightarrow> [[c]] | p # ps \<Rightarrow> (c # p) # ps))"

text \<open>\<open>strings.Join(elems, "/")\<close>.\<close>

fun JoinSlash :: "string list \<Rightarrow> string" where
  "JoinSlash [] = []"
| "JoinSlash [e] = e"
| "JoinSlash (e # es) = e @ ''/'' @ JoinSlash es"

text \<open>
  \<open>filepath.Clean\<close> on a slash-separated path: empty and \<open>.\<close> elements are dropped,
  \<open>..\<close> removes the element before it (at the start of a rooted path it is dropped,
  at the start of a relative path it is kept), and the empty result is \<open>.\<close>.
  \<open>clean_elems rooted out es\<close> holds the cleaned elements so far in \<open>out\<close>, last first.
\<close>

fun clean_elems :: "bool \<Rightarrow> string list \<Rightarrow> string list \<Rightarrow> string list" where
  "clean_elems rooted out [] = rev out"
| "clean_elems rooted out (e # es) =
     (if e = [] \<or> e = ''.'' then clean_elems rooted out es
      else if e = ''..'' then
        (case out of
           [] \<Rightarrow> if rooted then clean_elems rooted out es else clean_elems rooted [e] es
         | t # ts \<Rightarrow> if t = ''..'' then clean_elems rooted (e # out) es
                     else clean_elems rooted ts es)
      else clean_elems rooted (e # out) es)"

definition Clean :: "string \<Rightarrow> string" where
  "Clean p =
     (if p = [] then ''.''
      else (let rooted = (hd p = CHR ''/'');
                body = JoinSlash (clean_elems rooted [] (Split p (CHR ''/'')))
            in if rooted then ''/'' @ body
               else if body = [] then ''.'' else body))"

text \<open>
  \<open>filepath.Join(elem...)\<close>: the elements from the first non-empty one on, joined by
  slashes and cleaned; the empty string when every element is empty.
\<close>

definition filepath_Join :: "string list \<Rightarrow> string" where
  "filepath_Join elem =
     (case dropWhile (\<lambda>e. e = []) elem of
        [] \<Rightarrow> []
      | e # es \<Rightarrow> Clean (JoinSlash (e # es)))"

text \<open>
  \<open>strconv.ParseInt(s, 10, 64)\<close>: an optional sign and at least one decimal digit,
  nothing else, and the value within the 64-bit range; \<open>None\<close> is the error.
\<close>

definition digit_val :: "char \<Rightarrow> int option" where
  "digit_val c =
     (let n = of_char c :: nat
      in if 48 \<le> n \<and> n \<le> 57 then Some (int n - 48) else None)"

fun parse_digits :: "int \<Rightarrow> string \<Rightarrow> int option" where
  "parse_digits acc [] = Some acc"
| "parse_digits acc (c # cs) =
     (case digit_val c of
        None \<Rightarrow> None
      | Some d \<Rightarrow> parse_digits (10 * acc + d) cs)"

definition ParseInt :: "string \<Rightarrow> int option" where
  "ParseInt s =
     (let neg = (s \<noteq> [] \<and> hd s = CHR ''-'');
          body = (if s \<noteq> [] \<and> (hd s = CHR ''-'' \<or> hd s = CHR ''+'') then tl s else s)
      in if body = [] then None
         else (case parse_digits 0 body of
                 None \<Rightarrow> None
               | Some n \<Rightarrow>
                   (let v = (if neg then - n else n)
                    in if - (2 ^ 63) \<le> v \<and> v < 2 ^ 63 then Some v else None)))"

text \<open>
  Modelled from the spec: \<open>s.EnsureSuffix\<close> of the repository's string library is
  not among the source files; the spec has \<open>pythonPath\<close> "normalized to end with
  \<open>/\<close>": the suffix is added unless the string already ends with it.
\<close>

definition EnsureSuffix :: "string \<Rightarrow> string \<Rightarrow> string" where
  "EnsureSuffix str suf = (if HasSuffix str suf then str else str @ suf)"

subsection \<open>The data model\<close>

text \<open>
  \<open>userconfig.API\<close> with the fields the validation reads or writes. \<open>Tracker\<close>,
  \<open>Config\<close> and \<open>Env\<close> are carried through validation untouched and are left out.
  \<open>kresource.Quantity\<close> is an exact decimal with at most nine fractional digits; it
  is the integer number of its \<open>10\<^sup>-\<^sup>9\<close> units, so \<open>Sub\<close> is \<open>-\<close> and \<open>Cmp\<close> is the
  order of \<open>int\<close>. The replica counts are \<open>int32\<close> and \<open>GPU\<close> is \<open>int64\<close>; validation
  only compares them, so they are \<open>int\<close>.
\<close>

datatype PredictorType =
  UnknownPredictorType | PythonPredictorType | TensorFlowPredictorType | ONNXPredictorType

record Predictor =
  Type :: PredictorType
  Path :: string
  Model :: "string option"
  PythonPath :: "string option"
  SignatureKey :: "string option"

type_synonym Quantity = int

record Compute =
  MinReplicas :: int
  MaxReplicas :: int
  InitReplicas :: int
  TargetCPUUtilization :: int
  CPU :: Quantity
  Mem :: "Quantity option"
  GPU :: int

record API =
  Name :: string
  Endpoint :: "string option"
  predictor :: Predictor
  compute :: Compute
  Index :: nat
  FilePath :: string

text \<open>
  The elements of the path an error is wrapped with: a key or other string, or the
  identity of an API. \<open>userconfig.IdentifyAPI(filePath, name, index)\<close> renders the
  three as one string; the rendering is not among the source files, so the three are
  kept as they are.
\<close>

datatype ctx = Str string | IdentifyAPI string string nat

text \<open>
  The errors. Each constructor is one of the package's error constructors;
  \<open>Wrap e path\<close> is \<open>errors.Wrap(e, path...)\<close>; \<open>ExternalError\<close> is an error returned
  by a library or service outside the two source files (YAML, AWS, Kubernetes), with
  its message; \<open>ErrorMustBeDefined\<close>, \<open>ErrorInvalidValue\<close> and the two bounds are the
  errors of the schema walker; \<open>PanicNilPointerDereference\<close> is the runtime panic.
\<close>

datatype error =
    ErrorMalformedConfig
  | ErrorNoAPIs
  | ErrorDuplicateName "API list"
  | ErrorDuplicateEndpointOtherDeployment string
  | ErrorFieldMustBeDefinedForPredictorType string PredictorType
  | ErrorFieldNotSupportedByPredictorType string PredictorType
  | ErrorS3FileNotFound string
  | ErrorInvalidTensorFlowDir string
  | ErrorImplDoesNotExist string
  | ErrorMinReplicasGreaterThanMax int int
  | ErrorInitReplicasGreaterThanMax int int
  | ErrorInitReplicasLessThanMin int int
  | ErrorNoAvailableNodeComputeLimit string int int
  | ErrorMustBeDefined
  | ErrorInvalidValue string
  | ErrorMustBeGreaterThan int
  | ErrorMustBeGreaterThanOrEqualTo int
  | ExternalError string
  | Wrap error "ctx list"
  | PanicNilPointerDereference

text \<open>
  Modelled from the spec: the key constants of package \<open>userconfig\<close> are not among
  the source files; they are the field names of the manifest format in the spec.
\<close>

definition NameKey :: string where "NameKey = ''name''"
definition EndpointKey :: string where "EndpointKey = ''endpoint''"
definition PredictorKey :: string where "PredictorKey = ''predictor''"
definition ComputeKey :: string where "ComputeKey = ''compute''"
definition PathKey :: string where "PathKey = ''path''"
definition ModelKey :: string where "ModelKey = ''model''"
definition PythonPathKey :: string where "PythonPathKey = ''pythonPath''"
definition SignatureKeyKey :: string where "SignatureKeyKey = ''signatureKey''"

definition Identify :: "API \<Rightarrow> ctx" where
  "Identify api = IdentifyAPI (FilePath api) (Name api) (Index api)"

subsection \<open>Object storage\<close>

text \<open>
  \<open>aws.Client\<close>: the three calls the validation makes, as the answers of the store.
  \<open>IsS3PathFile paths\<close> is true when the call returns \<open>(true, nil)\<close>: every path is an
  object; \<open>IsS3PathPrefix path\<close> likewise for some key starting with the path's key;
  \<open>ListObjects bucket prefix\<close> is \<open>resp.Contents\<close>, the keys in the order the
  store lists them (empty when the call fails: its error is dropped by the source).
\<close>

record Client =
  IsS3PathFile :: "string list \<Rightarrow> bool"
  IsS3PathPrefix :: "string \<Rightarrow> bool"
  ListObjects :: "string \<Rightarrow> string \<Rightarrow> string list"

text \<open>
  \<open>aws.NewFromS3Path(path, false)\<close> is a parameter of the validation, of this type:
  the client for the path's bucket, or the message of the error.
\<close>

type_synonym NewFromS3Path = "string \<Rightarrow> string + Client"

text \<open>
  Modelled from the spec: \<open>aws.SplitS3Path\<close> and \<open>aws.S3PathJoin\<close> are not among the
  source files; the spec has object storage paths \<open>s3://<bucket>/<key>\<close>, split and
  joined by \<open>/\<close>. A path without the scheme or without a bucket is an error.
\<close>

definition SplitS3Path :: "string \<Rightarrow> error + (string \<times> string)" where
  "SplitS3Path path =
     (if \<not> HasPrefix path ''s3://'' then Inl (ExternalError ''invalid s3 path'')
      else (let full = drop 5 path;
                bucket = takeWhile (\<lambda>c. c \<noteq> CHR ''/'') full;
                key = drop (Suc (length bucket)) full
            in if bucket = [] then Inl (ExternalError ''invalid s3 path'')
               else Inr (bucket, key)))"

definition S3PathJoin :: "string \<Rightarrow> string \<Rightarrow> string" where
  "S3PathJoin path elem = ''s3://'' @ filepath_Join [drop 5 path, elem]"

subsection \<open>Predictor validation\<close>

definition validatePythonPredictor :: "Predictor \<Rightarrow> error option" where
  "validatePythonPredictor p =
     (if SignatureKey p \<noteq> None
        then Some (ErrorFieldNotSupportedByPredictorType SignatureKeyKey PythonPredictorType)
      else if Model p \<noteq> None
        then Some (ErrorFieldNotSupportedByPredictorType ModelKey PythonPredictorType)
      else None)"

text \<open>
  \<open>isValidTensorFlowS3Directory\<close>. The loop of \<open>getTFServingExportFromS3Path\<close>
  calls it under the name of its doc comment, \<open>IsValidTensorFlowS3Directory\<close>.
\<close>

definition isValidTensorFlowS3Directory :: "string \<Rightarrow> Client \<Rightarrow> bool" where
  "isValidTensorFlowS3Directory path awsClient =
     (if \<not> IsS3PathFile awsClient
            [S3PathJoin path ''saved_model.pb'', S3PathJoin path ''variables/variables.index'']
        then False
      else if \<not> IsS3PathPrefix awsClient (S3PathJoin path ''variables/variables.data-00000-of'')
        then False
      else True)"

text \<open>
  The body of the loop over \<open>resp.Contents\<close> in \<open>getTFServingExportFromS3Path\<close>;
  the state is \<open>(highestVersion, highestPath)\<close>. \<open>keyParts[len(keyParts)-1]\<close> is
  \<open>last keyParts\<close> and \<open>keyParts[:len(keyParts)-1]\<close> is \<open>butlast keyParts\<close>
  (\<open>Split\<close> never returns the empty list).
\<close>

definition tf_step :: "string \<Rightarrow> Client \<Rightarrow> int \<times> string \<Rightarrow> string \<Rightarrow> int \<times> string" where
  "tf_step bucket awsClient st key =
     (if \<not> HasSuffix key ''saved_model.pb'' then st
      else (let keyParts = Split key (CHR ''/'');
                versionStr = last keyParts;
                version = (case ParseInt versionStr of None \<Rightarrow> 0 | Some v \<Rightarrow> v);
                possiblePath = ''s3://'' @ filepath_Join [bucket, filepath_Join (butlast keyParts)]
            in if version \<ge> fst st \<and> isValidTensorFlowS3Directory possiblePath awsClient
               then (version, possiblePath)
               else st))"

definition getTFServingExportFromS3Path :: "string \<Rightarrow> Client \<Rightarrow> error + string" where
  "getTFServingExportFromS3Path path awsClient =
     (if isValidTensorFlowS3Directory path awsClient then Inr path
      else (case SplitS3Path path of
              Inl err \<Rightarrow> Inl err
            | Inr (bucket, prefix0) \<Rightarrow>
                (let prefix1 = EnsureSuffix prefix0 ''/'';
                     contents = ListObjects awsClient bucket prefix1
                 in Inr (snd (foldl (tf_step bucket awsClient) (0, []) contents)))))"

text \<open>\<open>validateTensorFlowPredictor\<close> returns the predictor with its rewritten model.\<close>

definition validateTensorFlowPredictor :: "NewFromS3Path \<Rightarrow> Predictor \<Rightarrow> error + Predictor" where
  "validateTensorFlowPredictor newClient p =
     (case Model p of
        None \<Rightarrow> Inl (ErrorFieldMustBeDefinedForPredictorType ModelKey TensorFlowPredictorType)
      | Some model \<Rightarrow>
          (case newClient model of
             Inl msg \<Rightarrow> Inl (ExternalError msg)
           | Inr awsClient \<Rightarrow>
               if HasSuffix model ''.zip'' then
                 (if \<not> IsS3PathFile awsClient [model]
                    then Inl (Wrap (ErrorS3FileNotFound model) [Str ModelKey])
                  else Inr p)
               else
                 (case getTFServingExportFromS3Path model awsClient of
                    Inl err \<Rightarrow> Inl (Wrap (ErrorInvalidTensorFlowDir model) [Str ModelKey])
                  | Inr path \<Rightarrow>
                      if path = [] then Inl (Wrap (ErrorInvalidTensorFlowDir model) [Str ModelKey])
                      else Inr (p\<lparr>Model := Some path\<rparr>))))"

text \<open>
  \<open>validateONNXPredictor\<close>. The source has no \<open>return\<close> after the last check; the
  success path is \<open>nil\<close>.
\<close>

definition validateONNXPredictor :: "NewFromS3Path \<Rightarrow> Predictor \<Rightarrow> error option" where
  "validateONNXPredictor newClient p =
     (case Model p of
        None \<Rightarrow> Some (ErrorFieldMustBeDefinedForPredictorType ModelKey ONNXPredictorType)
      | Some model \<Rightarrow>
          (case newClient model of
             Inl msg \<Rightarrow> Some (ExternalError msg)
           | Inr awsClient \<Rightarrow>
               if \<not> IsS3PathFile awsClient [model]
                 then Some (Wrap (ErrorS3FileNotFound model) [Str ModelKey])
               else if SignatureKey p \<noteq> None
                 then Some (ErrorFieldNotSupportedByPredictorType SignatureKeyKey ONNXPredictorType)
               else None))"

text \<open>
  \<open>projectFileMap\<close> is a Go map from file path to bytes; it is its list of entries.
  A lookup is \<open>map_of\<close>; the \<open>range\<close> loop of \<open>validatePythonPath\<close> only asks whether
  some key has the prefix, so the order of the entries does not matter.
\<close>

type_synonym ProjectFileMap = "(string \<times> nat list) list"

definition validatePythonPath :: "string \<Rightarrow> ProjectFileMap \<Rightarrow> error option" where
  "validatePythonPath pythonPath projectFileMap =
     (let validPythonPath = list_ex (\<lambda>fileKey. HasPrefix fileKey pythonPath) (map fst projectFileMap)
      in if \<not> validPythonPath then Some (ErrorImplDoesNotExist pythonPath) else None)"

text \<open>The \<open>switch\<close> of \<open>validatePredictor\<close>: it has no \<open>default\<close> case.\<close>

definition validatePredictor_switch :: "NewFromS3Path \<Rightarrow> Predictor \<Rightarrow> error + Predictor" where
  "validatePredictor_switch newClient p =
     (case Type p of
        PythonPredictorType \<Rightarrow>
          (case validatePythonPredictor p of Some err \<Rightarrow> Inl err | None \<Rightarrow> Inr p)
      | TensorFlowPredictorType \<Rightarrow> validateTensorFlowPredictor newClient p
      | ONNXPredictorType \<Rightarrow>
          (case validateONNXPredictor newClient p of Some err \<Rightarrow> Inl err | None \<Rightarrow> Inr p)
      | UnknownPredictorType \<Rightarrow> Inr p)"

definition validatePredictor :: "NewFromS3Path \<Rightarrow> Predictor \<Rightarrow> ProjectFileMap \<Rightarrow> error + Predictor" where
  "validatePredictor newClient p0 projectFileMap =
     (case validatePredictor_switch newClient p0 of
        Inl err \<Rightarrow> Inl err
      | Inr p \<Rightarrow>
          if map_of projectFileMap (Path p) = None
            then Inl (Wrap (ErrorImplDoesNotExist (Path p)) [Str PathKey])
          else (case PythonPath p of
                  None \<Rightarrow> Inr p
                | Some pythonPath \<Rightarrow>
                    (case validatePythonPath pythonPath projectFileMap of
                       Some err \<Rightarrow> Inl (Wrap err [Str PythonPathKey])
                     | None \<Rightarrow> Inr p)))"

subsection \<open>Compute validation\<close>

text \<open>
  \<open>config.Cluster.InstanceMetadata\<close> and the four reserve constants
  (\<open>_cortexCPUReserve\<close>, \<open>_cortexMemReserve\<close>, \<open>_nvidiaCPUReserve\<close>,
  \<open>_nvidiaMemReserve\<close>) are declared outside the source files; they are parameters.
\<close>

record ClusterConfig =
  InstanceCPU :: Quantity
  InstanceGPU :: int
  cortexCPUReserve :: Quantity
  cortexMemReserve :: Quantity
  nvidiaCPUReserve :: Quantity
  nvidiaMemReserve :: Quantity

text \<open>
  \<open>validateAvailableCompute\<close>. \<open>maxMem\<close> is a \<open>*kresource.Quantity\<close> and
  \<open>maxMem.Sub\<close> subtracts in place, so the function returns the quantity the pointer
  holds afterwards. \<open>maxCPU\<close> is a local copy of the instance's CPU and is taken
  as independent of it: that holds of every \<open>Quantity\<close> within the \<open>int64\<close> range
  of its scaled value, as an instance's CPU is. (A \<open>Quantity\<close> beyond that range
  holds a pointer to its decimal, which a copy shares; \<open>Sub\<close> on the copy would
  then lower the configured CPU as well.)
\<close>

definition validateAvailableCompute :: "ClusterConfig \<Rightarrow> Compute \<Rightarrow> Quantity \<Rightarrow> Quantity \<times> error option" where
  "validateAvailableCompute cfg c maxMem0 =
     (let maxMem1 = maxMem0 - cortexMemReserve cfg;
          maxCPU1 = InstanceCPU cfg - cortexCPUReserve cfg;
          maxGPU = InstanceGPU cfg;
          maxCPU = (if maxGPU > 0 then maxCPU1 - nvidiaCPUReserve cfg else maxCPU1);
          maxMem = (if maxGPU > 0 then maxMem1 - nvidiaMemReserve cfg else maxMem1)
      in (maxMem,
          if maxCPU < CPU c then Some (ErrorNoAvailableNodeComputeLimit ''CPU'' (CPU c) maxCPU)
          else (case (case Mem c of
                        None \<Rightarrow> None
                      | Some m \<Rightarrow>
                          if maxMem < m
                            then Some (ErrorNoAvailableNodeComputeLimit ''Memory'' m maxMem)
                          else None) of
                  Some err \<Rightarrow> Some err
                | None \<Rightarrow>
                    if GPU c > maxGPU
                      then Some (ErrorNoAvailableNodeComputeLimit ''GPU'' (GPU c) maxGPU)
                    else None)))"

definition validateCompute :: "ClusterConfig \<Rightarrow> Compute \<Rightarrow> Quantity \<Rightarrow> Quantity \<times> error option" where
  "validateCompute cfg c maxMem =
     (if MinReplicas c > MaxReplicas c
        then (maxMem, Some (ErrorMinReplicasGreaterThanMax (MinReplicas c) (MaxReplicas c)))
      else if InitReplicas c > MaxReplicas c
        then (maxMem, Some (ErrorInitReplicasGreaterThanMax (InitReplicas c) (MaxReplicas c)))
      else if InitReplicas c < MinReplicas c
        then (maxMem, Some (ErrorInitReplicasLessThanMin (InitReplicas c) (MinReplicas c)))
      else validateAvailableCompute cfg c maxMem)"

subsection \<open>Endpoint collisions\<close>

text \<open>
  A Go map of labels is its list of entries; reading a missing key gives the empty
  string.
\<close>

type_synonym Labels = "(string \<times> string) list"

definition label :: "Labels \<Rightarrow> string \<Rightarrow> string" where
  "label ls k = (case map_of ls k of None \<Rightarrow> [] | Some v \<Rightarrow> v)"

text \<open>
  A virtual service as the validation sees it: the results of
  \<open>k8s.ExtractVirtualServiceGateways\<close> and \<open>k8s.ExtractVirtualServiceEndpoints\<close>
  (the message of the error, or the set as a list) and its labels.
\<close>

record VirtualService =
  vs_Gateways :: "string + string list"
  vs_Endpoints :: "string + string list"
  vs_Labels :: Labels

text \<open>
  The inner loop of \<open>validateEndpointCollisions\<close> over the endpoints of one virtual
  service. \<open>*api.Endpoint\<close> dereferences a pointer.
\<close>

fun endpoint_loop :: "API \<Rightarrow> VirtualService \<Rightarrow> string list \<Rightarrow> error option" where
  "endpoint_loop api vs [] = None"
| "endpoint_loop api vs (endpoint # rest) =
     (case Endpoint api of
        None \<Rightarrow> Some PanicNilPointerDereference
      | Some apiEndpoint \<Rightarrow>
          if endpoint = apiEndpoint \<and> label (vs_Labels vs) ''apiName'' \<noteq> Name api
            then Some (Wrap (ErrorDuplicateEndpointOtherDeployment (label (vs_Labels vs) ''apiName''))
                         [Identify api, Str EndpointKey, Str endpoint])
          else endpoint_loop api vs rest)"

fun validateEndpointCollisions :: "API \<Rightarrow> VirtualService list \<Rightarrow> error option" where
  "validateEndpointCollisions api [] = None"
| "validateEndpointCollisions api (virtualService # rest) =
     (case vs_Gateways virtualService of
        Inl msg \<Rightarrow> Some (ExternalError msg)
      | Inr gateways \<Rightarrow>
          if ''apis-gateway'' \<notin> set gateways then validateEndpointCollisions api rest
          else (case vs_Endpoints virtualService of
                  Inl msg \<Rightarrow> Some (ExternalError msg)
                | Inr endpoints \<Rightarrow>
                    (case endpoint_loop api virtualService endpoints of
                       Some err \<Rightarrow> Some err
                     | None \<Rightarrow> validateEndpointCollisions api rest)))"

subsection \<open>Validation of one API and of a manifest\<close>

text \<open>
  What the validation is given from outside: the constructor of storage clients, the
  cluster's configuration, and the two answers of the Kubernetes API server that
  \<open>getValidationK8sResources\<close> fetches (\<open>updateMemoryCapacityConfigMap\<close> is a
  function of the package that is not among the source files).
\<close>

record Env =
  NewFromS3Path :: NewFromS3Path
  Cluster :: ClusterConfig
  ListVirtualServices :: "string + VirtualService list"
  updateMemoryCapacityConfigMap :: "string + Quantity"

text \<open>
  \<open>validateAPI\<close> writes the default endpoint and the rewritten model through the
  pointer \<open>api\<close> and subtracts from \<open>maxMem\<close>: it returns the quantity \<open>maxMem\<close> holds
  afterwards, and the error or the API as it is afterwards.
\<close>

definition validateAPI :: "Env \<Rightarrow> API \<Rightarrow> ProjectFileMap \<Rightarrow> VirtualService list \<Rightarrow> Quantity \<Rightarrow> Quantity \<times> (error + API)" where
  "validateAPI env api0 projectFileMap virtualServices maxMem =
     (let api1 = (if Endpoint api0 = None then api0\<lparr>Endpoint := Some (''/'' @ Name api0)\<rparr> else api0)
      in case validatePredictor (NewFromS3Path env) (predictor api1) projectFileMap of
           Inl err \<Rightarrow> (maxMem, Inl (Wrap err [Identify api1, Str PredictorKey]))
         | Inr p \<Rightarrow>
             (let api = api1\<lparr>predictor := p\<rparr>
              in case validateCompute (Cluster env) (compute api) maxMem of
                   (maxMem', Some err) \<Rightarrow> (maxMem', Inl (Wrap err [Identify api, Str ComputeKey]))
                 | (maxMem', None) \<Rightarrow>
                     (case validateEndpointCollisions api virtualServices of
                        Some err \<Rightarrow> (maxMem', Inl err)
                      | None \<Rightarrow> (maxMem', Inr api))))"

text \<open>
  \<open>findDuplicateNames\<close>. The first loop builds the Go map \<open>names\<close> from a name to
  the APIs with that name, in the order of the manifest; reading \<open>api.Name\<close> of a
  \<open>nil\<close> entry panics. \<open>names\<close> is a function whose value at a missing key is the
  empty slice, as in Go.
\<close>

fun names_loop :: "(string \<Rightarrow> API list) \<Rightarrow> API option list \<Rightarrow> error + (string \<Rightarrow> API list)" where
  "names_loop names [] = Inr names"
| "names_loop names (None # apis) = Inl PanicNilPointerDereference"
| "names_loop names (Some api # apis) =
     names_loop (names(Name api := names (Name api) @ [api])) apis"

text \<open>
  The second loop is \<open>for name := range names\<close>: Go visits every key of the map once,
  in an order the runtime chooses anew for each loop. That order is the parameter
  \<open>order\<close>; \<open>range_order order apis\<close> says that it is an order of exactly the keys.
\<close>

fun first_group :: "(string \<Rightarrow> API list) \<Rightarrow> string list \<Rightarrow> API list" where
  "first_group names [] = []"
| "first_group names (name # rest) =
     (if length (names name) > 1 then names name else first_group names rest)"

definition findDuplicateNames :: "string list \<Rightarrow> API option list \<Rightarrow> error + API list" where
  "findDuplicateNames order apis =
     (case names_loop (\<lambda>name. []) apis of
        Inl panic \<Rightarrow> Inl panic
      | Inr names \<Rightarrow> Inr (first_group names order))"

definition range_order :: "string list \<Rightarrow> API option list \<Rightarrow> bool" where
  "range_order order apis = (distinct order \<and> set order = set [Name api. Some api \<leftarrow> apis])"

text \<open>
  \<open>getValidationK8sResources\<close>. \<open>parallel.RunFirstErr\<close> is not among the source
  files. Modelled from the spec: it runs both fetches and returns the first error;
  when both fail it is the error of the first fetch in the argument list.
\<close>

definition getValidationK8sResources :: "Env \<Rightarrow> error + (VirtualService list \<times> Quantity)" where
  "getValidationK8sResources env =
     (case ListVirtualServices env of
        Inl msg \<Rightarrow> Inl (ExternalError msg)
      | Inr virtualServices \<Rightarrow>
          (case updateMemoryCapacityConfigMap env of
             Inl msg \<Rightarrow> Inl (Wrap (ExternalError msg) [Str ''validating memory constraint''])
           | Inr maxMem \<Rightarrow> Inr (virtualServices, maxMem)))"

text \<open>
  The loop of \<open>validateAPIs\<close> over the APIs. The one \<open>maxMem\<close> pointer is passed to
  every \<open>validateAPI\<close> call, so the quantity it holds is threaded through the loop.
  (The source binds the results of \<open>getValidationK8sResources\<close> in the order
  \<open>maxMem, virtualServices\<close> although the function returns them in the order
  \<open>virtualServices, maxMem\<close>; each result is taken here by its name and type.)
\<close>

fun validateAPIs_loop :: "Env \<Rightarrow> ProjectFileMap \<Rightarrow> VirtualService list \<Rightarrow> Quantity \<Rightarrow> API option list \<Rightarrow> error + API option list" where
  "validateAPIs_loop env projectFileMap virtualServices maxMem [] = Inr []"
| "validateAPIs_loop env projectFileMap virtualServices maxMem (None # apis) =
     Inl PanicNilPointerDereference"
| "validateAPIs_loop env projectFileMap virtualServices maxMem (Some api # apis) =
     (case validateAPI env api projectFileMap virtualServices maxMem of
        (maxMem', Inl err) \<Rightarrow> Inl err
      | (maxMem', Inr api') \<Rightarrow>
          (case validateAPIs_loop env projectFileMap virtualServices maxMem' apis of
             Inl err \<Rightarrow> Inl err
           | Inr apis' \<Rightarrow> Inr (Some api' # apis')))"

text \<open>
  \<open>validateAPIs\<close> returns the error, or the APIs as the pass leaves them. The source
  has no \<open>return\<close> after the loop; the success path is \<open>nil\<close>.
\<close>

definition validateAPIs :: "Env \<Rightarrow> string list \<Rightarrow> API option list \<Rightarrow> ProjectFileMap \<Rightarrow> error + API option list" where
  "validateAPIs env order apis projectFileMap =
     (if length apis = 0 then Inl ErrorNoAPIs
      else (case findDuplicateNames order apis of
              Inl panic \<Rightarrow> Inl panic
            | Inr dups \<Rightarrow>
                if length dups > 0 then Inl (ErrorDuplicateName dups)
                else (case getValidationK8sResources env of
                        Inl err \<Rightarrow> Inl err
                      | Inr (virtualServices, maxMem) \<Rightarrow>
                          validateAPIs_loop env projectFileMap virtualServices maxMem apis)))"

subsection \<open>The schema and the entry point\<close>

text \<open>
  A manifest entry as the YAML reader hands it over: every field may be missing.
  The field names are those of the manifest format in the spec.
\<close>

record raw_Predictor =
  raw_type :: "string option"
  raw_path :: "string option"
  raw_model :: "string option"
  raw_pythonPath :: "string option"
  raw_signatureKey :: "string option"

record raw_Compute =
  raw_minReplicas :: "int option"
  raw_maxReplicas :: "int option"
  raw_initReplicas :: "int option"
  raw_targetCPUUtilization :: "int option"
  raw_cpu :: "string option"
  raw_mem :: "string option"
  raw_gpu :: "int option"

record raw_API =
  raw_name :: "string option"
  raw_endpoint :: "string option"
  raw_predictor :: "raw_Predictor option"
  raw_compute :: "raw_Compute option"

text \<open>
  The validators and parsers the tables \<open>_apiValidation\<close>, \<open>_predictorValidation\<close>
  and \<open>_computeFieldValidation\<close> name that live in other packages: the DNS-1035
  check, \<open>urls.ValidateEndpoint\<close>, \<open>cr.S3PathValidator()\<close> and the parser of
  quantities. They are parameters.
\<close>

record Validators =
  DNS1035 :: "string \<Rightarrow> bool"
  ValidateEndpoint :: "string \<Rightarrow> string + string"
  S3PathValidator :: "string \<Rightarrow> string + string"
  ParseQuantity :: "string \<Rightarrow> Quantity option"

definition bindE :: "error + 'a \<Rightarrow> ('a \<Rightarrow> error + 'b) \<Rightarrow> error + 'b" where
  "bindE r f = (case r of Inl err \<Rightarrow> Inl err | Inr v \<Rightarrow> f v)"

text \<open>
  Modelled from the spec: the walker \<open>cr.Struct\<close> of the repository's schema library
  is not among the source files. The spec has it apply each field's record of the
  table (required, default value or default from a sibling field, numeric bound,
  allowed values, string transform, parser) and surface the first error; the fields
  are visited in the order of the table. The functions below are the walker at each
  kind of field; the defaults and bounds they are called with are the table's.
\<close>

definition required_field :: "string \<Rightarrow> 'a option \<Rightarrow> error + 'a" where
  "required_field key raw =
     (case raw of None \<Rightarrow> Inl (Wrap ErrorMustBeDefined [Str key]) | Some v \<Rightarrow> Inr v)"

definition validated_field :: "string \<Rightarrow> (string \<Rightarrow> string + string) \<Rightarrow> string option \<Rightarrow> error + string option" where
  "validated_field key validator raw =
     (case raw of
        None \<Rightarrow> Inr None
      | Some v \<Rightarrow>
          (case validator v of
             Inl msg \<Rightarrow> Inl (Wrap (ExternalError msg) [Str key])
           | Inr v' \<Rightarrow> Inr (Some v')))"

definition int32_field :: "string \<Rightarrow> int option \<Rightarrow> int \<Rightarrow> int \<Rightarrow> error + int" where
  "int32_field key raw dflt aboveBound =
     (let v = (case raw of None \<Rightarrow> dflt | Some v \<Rightarrow> v)
      in if v < - (2 ^ 31) \<or> 2 ^ 31 \<le> v then Inl (Wrap (ErrorInvalidValue ''int32'') [Str key])
         else if v > aboveBound then Inr v
         else Inl (Wrap (ErrorMustBeGreaterThan aboveBound) [Str key]))"

definition int64_field :: "string \<Rightarrow> int option \<Rightarrow> int \<Rightarrow> int \<Rightarrow> error + int" where
  "int64_field key raw dflt atLeastBound =
     (let v = (case raw of None \<Rightarrow> dflt | Some v \<Rightarrow> v)
      in if v < - (2 ^ 63) \<or> 2 ^ 63 \<le> v then Inl (Wrap (ErrorInvalidValue ''int64'') [Str key])
         else if v \<ge> atLeastBound then Inr v
         else Inl (Wrap (ErrorMustBeGreaterThanOrEqualTo atLeastBound) [Str key]))"

text \<open>\<open>k8s.QuantityParser\<close> with \<open>GreaterThan: 0\<close>.\<close>

definition quantity_field :: "Validators \<Rightarrow> string \<Rightarrow> string \<Rightarrow> error + Quantity" where
  "quantity_field v key str =
     (case ParseQuantity v str of
        None \<Rightarrow> Inl (Wrap (ErrorInvalidValue str) [Str key])
      | Some q \<Rightarrow> if q > 0 then Inr q else Inl (Wrap (ErrorMustBeGreaterThan 0) [Str key]))"

text \<open>\<open>_computeFieldValidation\<close>.\<close>

definition Struct_Compute :: "Validators \<Rightarrow> raw_Compute \<Rightarrow> error + Compute" where
  "Struct_Compute v raw =
     bindE (int32_field ''minReplicas'' (raw_minReplicas raw) 1 0) (\<lambda>minReplicas.
     bindE (int32_field ''maxReplicas'' (raw_maxReplicas raw) 100 0) (\<lambda>maxReplicas.
     bindE (int32_field ''initReplicas'' (raw_initReplicas raw) minReplicas 0) (\<lambda>initReplicas.
     bindE (int32_field ''targetCPUUtilization'' (raw_targetCPUUtilization raw) 80 0) (\<lambda>target.
     bindE (quantity_field v ''cpu'' (case raw_cpu raw of None \<Rightarrow> ''200m'' | Some str \<Rightarrow> str)) (\<lambda>cpu.
     bindE (case raw_mem raw of
              None \<Rightarrow> Inr None
            | Some str \<Rightarrow> bindE (quantity_field v ''mem'' str) (\<lambda>q. Inr (Some q))) (\<lambda>mem.
     bindE (int64_field ''gpu'' (raw_gpu raw) 0 0) (\<lambda>gpu.
       Inr \<lparr>MinReplicas = minReplicas, MaxReplicas = maxReplicas, InitReplicas = initReplicas,
            TargetCPUUtilization = target, CPU = cpu, Mem = mem, GPU = gpu\<rparr>)))))))"

text \<open>
  Modelled from the spec: \<open>userconfig.PredictorTypeStrings\<close> and
  \<open>userconfig.PredictorTypeFromString\<close> are not among the source files; the spec has
  \<open>type \<in> {python, tensorflow, onnx}\<close>.
\<close>

definition PredictorTypeStrings :: "string list" where
  "PredictorTypeStrings = [''python'', ''tensorflow'', ''onnx'']"

definition PredictorTypeFromString :: "string \<Rightarrow> PredictorType" where
  "PredictorTypeFromString str =
     (if str = ''python'' then PythonPredictorType
      else if str = ''tensorflow'' then TensorFlowPredictorType
      else if str = ''onnx'' then ONNXPredictorType
      else UnknownPredictorType)"

text \<open>\<open>_predictorValidation\<close>.\<close>

definition Struct_Predictor :: "Validators \<Rightarrow> raw_Predictor \<Rightarrow> error + Predictor" where
  "Struct_Predictor v raw =
     bindE (required_field ''type'' (raw_type raw)) (\<lambda>typeStr.
     bindE (if typeStr \<in> set PredictorTypeStrings then Inr (PredictorTypeFromString typeStr)
            else Inl (Wrap (ErrorInvalidValue typeStr) [Str ''type''])) (\<lambda>type.
     bindE (required_field PathKey (raw_path raw)) (\<lambda>path.
     bindE (validated_field ModelKey (S3PathValidator v) (raw_model raw)) (\<lambda>model.
     bindE (validated_field PythonPathKey (\<lambda>path. Inr (EnsureSuffix path ''/'')) (raw_pythonPath raw)) (\<lambda>pythonPath.
       Inr \<lparr>Type = type, Path = path, Model = model, PythonPath = pythonPath,
            SignatureKey = raw_signatureKey raw\<rparr>)))))"

text \<open>
  \<open>_apiValidation\<close>, without the tracker. A missing \<open>compute\<close> mapping is validated as
  the empty mapping, so every field takes its default. \<open>Index\<close> and \<open>FilePath\<close> are
  not fields of the table; \<open>ExtractAPIConfigs\<close> sets them.
\<close>

definition empty_Compute :: raw_Compute where
  "empty_Compute = \<lparr>raw_minReplicas = None, raw_maxReplicas = None, raw_initReplicas = None,
     raw_targetCPUUtilization = None, raw_cpu = None, raw_mem = None, raw_gpu = None\<rparr>"

definition Struct :: "Validators \<Rightarrow> raw_API \<Rightarrow> error + API" where
  "Struct v data =
     bindE (required_field NameKey (raw_name data)) (\<lambda>name.
     bindE (if DNS1035 v name then Inr name
            else Inl (Wrap (ErrorInvalidValue name) [Str NameKey])) (\<lambda>name.
     bindE (validated_field EndpointKey (ValidateEndpoint v) (raw_endpoint data)) (\<lambda>endpoint.
     bindE (bindE (required_field PredictorKey (raw_predictor data)) (\<lambda>raw.
              case Struct_Predictor v raw of
                Inl err \<Rightarrow> Inl (Wrap err [Str PredictorKey])
              | Inr p \<Rightarrow> Inr p)) (\<lambda>p.
     bindE (case Struct_Compute v (case raw_compute data of None \<Rightarrow> empty_Compute | Some raw \<Rightarrow> raw) of
              Inl err \<Rightarrow> Inl (Wrap err [Str ComputeKey])
            | Inr c \<Rightarrow> Inr c) (\<lambda>c.
       Inr \<lparr>Name = name, Endpoint = endpoint, predictor = p, compute = c,
            Index = 0, FilePath = []\<rparr>)))))"

text \<open>
  The result of \<open>cast.InterfaceToStrInterfaceMapSlice\<close> on the parsed YAML: a
  sequence of mappings, or anything else.
\<close>

datatype ConfigData = StrInterfaceMapSlice "raw_API list" | OtherData

text \<open>
  The loop of \<open>ExtractAPIConfigs\<close>: \<open>i\<close> is the index of \<open>data\<close>, \<open>apis\<close> the slice
  so far. Each validated API is appended to \<open>apis\<close>.
\<close>

fun ExtractAPIConfigs_loop :: "Validators \<Rightarrow> string \<Rightarrow> nat \<Rightarrow> raw_API list \<Rightarrow> API option list \<Rightarrow> error + API option list" where
  "ExtractAPIConfigs_loop v filePath i [] apis = Inr apis"
| "ExtractAPIConfigs_loop v filePath i (data # rest) apis =
     (case Struct v data of
        Inl err \<Rightarrow>
          Inl (Wrap err [IdentifyAPI filePath (case raw_name data of None \<Rightarrow> [] | Some name \<Rightarrow> name) i])
      | Inr api \<Rightarrow>
          ExtractAPIConfigs_loop v filePath (Suc i) rest
            (apis @ [Some (api\<lparr>Index := i, FilePath := filePath\<rparr>)]))"

text \<open>
  \<open>ExtractAPIConfigs\<close>. \<open>configData\<close> is the result of \<open>cr.ReadYAMLBytes\<close> on
  \<open>configBytes\<close>: the message of the error, or the data. \<open>apis\<close> starts as
  \<open>make([]*API, len(configDataSlice))\<close>: that many \<open>nil\<close> pointers.
\<close>

definition ExtractAPIConfigs :: "Validators \<Rightarrow> Env \<Rightarrow> string list \<Rightarrow> string + ConfigData \<Rightarrow> ProjectFileMap \<Rightarrow> string \<Rightarrow> error + API option list" where
  "ExtractAPIConfigs v env order configData projectFileMap filePath =
     (case configData of
        Inl msg \<Rightarrow> Inl (Wrap (ExternalError msg) [Str filePath])
      | Inr OtherData \<Rightarrow> Inl (Wrap ErrorMalformedConfig [Str filePath])
      | Inr (StrInterfaceMapSlice configDataSlice) \<Rightarrow>
          (case ExtractAPIConfigs_loop v filePath 0 configDataSlice
                  (replicate (length configDataSlice) None) of
             Inl err \<Rightarrow> Inl err
           | Inr apis \<Rightarrow>
               (case validateAPIs env order apis projectFileMap of
                  Inl err \<Rightarrow> Inl err
                | Inr apis' \<Rightarrow> Inr apis')))"

subsection \<open>The autoscaler job of \<open>cron.go\<close>\<close>

text \<open>
  A \<open>time.Time\<close> is the number of nanoseconds since Go's zero instant, so \<open>IsZero\<close>
  is equality with 0, \<open>Add\<close> is \<open>+\<close> and \<open>After\<close> is \<open>>\<close>. \<open>time.Now()\<close> is the
  parameter \<open>now\<close>: every reading within one tick gives the same instant.
\<close>

type_synonym Time = int

definition Second :: int where
  "Second = 1000000000"

text \<open>
  \<open>kapps.DeploymentConditionType\<close> and \<open>kcore.ConditionStatus\<close> are string types
  of the Kubernetes API.
\<close>

definition DeploymentProgressing :: string where "DeploymentProgressing = ''Progressing''"
definition ConditionTrue :: string where "ConditionTrue = ''True''"

record DeploymentCondition =
  cond_Type :: string
  cond_Status :: string
  cond_LastUpdateTime :: Time

text \<open>
  Modelled from the spec: \<open>k8s.IsPodReady\<close> and \<open>k8s.IsPodSpecLatest\<close> are not among
  the source files; the spec has pods read for "readiness, pod-spec hash vs
  deployment". A pod carries its readiness and the hash of its pod spec, a deployment
  the hash of its latest pod spec.
\<close>

record Pod =
  pod_Labels :: Labels
  pod_Ready :: bool
  pod_SpecHash :: string

text \<open>
  \<open>dep_Replicas\<close> is \<open>deployment.Spec.Replicas\<close>, which the source compares with
  the \<open>int32\<close> count as it is; \<open>dep_Conditions\<close> is \<open>deployment.Status.Conditions\<close>.
\<close>

record Deployment =
  dep_Labels :: Labels
  dep_Replicas :: "32 word"
  dep_Conditions :: "DeploymentCondition list"
  dep_SpecHash :: string

definition IsPodReady :: "Pod \<Rightarrow> bool" where
  "IsPodReady pod = pod_Ready pod"

definition IsPodSpecLatest :: "Pod \<Rightarrow> Deployment \<Rightarrow> bool" where
  "IsPodSpecLatest pod deployment = (pod_SpecHash pod = dep_SpecHash deployment)"

text \<open>
  \<open>numUpdatedReadyReplicas\<close>; \<open>readyReplicas\<close> is an \<open>int32\<close>, and \<open>++\<close> wraps.
\<close>

fun numUpdatedReadyReplicas_loop :: "Deployment \<Rightarrow> 32 word \<Rightarrow> Pod list \<Rightarrow> 32 word" where
  "numUpdatedReadyReplicas_loop deployment readyReplicas [] = readyReplicas"
| "numUpdatedReadyReplicas_loop deployment readyReplicas (pod # pods) =
     (if label (pod_Labels pod) ''apiName'' \<noteq> label (dep_Labels deployment) ''apiName''
        then numUpdatedReadyReplicas_loop deployment readyReplicas pods
      else if IsPodReady pod \<and> IsPodSpecLatest pod deployment
        then numUpdatedReadyReplicas_loop deployment (readyReplicas + 1) pods
      else numUpdatedReadyReplicas_loop deployment readyReplicas pods)"

definition numUpdatedReadyReplicas :: "Deployment \<Rightarrow> Pod list \<Rightarrow> 32 word" where
  "numUpdatedReadyReplicas deployment pods = numUpdatedReadyReplicas_loop deployment 0 pods"

text \<open>
  The cluster as the autoscaler job sees it. Modelled from the spec:
  \<open>config.Kubernetes.HPAExists\<close>, \<open>CreateHPA\<close> and \<open>hpaSpec\<close> are not among the source
  files; the spec has autoscaler objects "keyed by API name", so the cluster holds
  the API names that have an autoscaler, and creating one for a name that has one
  fails, as creating an existing object does. \<open>ListPodsWithLabels\<close> is the answer
  to listing the pods with the label \<open>apiName\<close>, and \<open>CreateHPA_failure\<close> the error,
  if any, with which the API server refuses to create the autoscaler of a name.
\<close>

record Kubernetes =
  hpas :: "string list"
  ListPodsWithLabels :: "string + Pod list"
  CreateHPA_failure :: "string \<Rightarrow> string option"

definition HPAExists :: "Kubernetes \<Rightarrow> string \<Rightarrow> bool" where
  "HPAExists k name = (name \<in> set (hpas k))"

definition CreateHPA :: "Kubernetes \<Rightarrow> string \<Rightarrow> Kubernetes \<times> error option" where
  "CreateHPA k name =
     (case CreateHPA_failure k name of
        Some msg \<Rightarrow> (k, Some (ExternalError msg))
      | None \<Rightarrow>
          if name \<in> set (hpas k) then (k, Some (ExternalError ''already exists''))
          else (k\<lparr>hpas := hpas k @ [name]\<rparr>, None))"

text \<open>
  The body of the loop over \<open>deployment.Status.Conditions\<close>; the state is the cluster
  and \<open>errs\<close>.
\<close>

definition condition_step :: "Time \<Rightarrow> Deployment \<Rightarrow> Kubernetes \<times> error list \<Rightarrow> DeploymentCondition \<Rightarrow> Kubernetes \<times> error list" where
  "condition_step now deployment st condition =
     (if cond_Type condition = DeploymentProgressing \<and>
         cond_Status condition = ConditionTrue \<and>
         \<not> (cond_LastUpdateTime condition = 0) \<and>
         now > cond_LastUpdateTime condition + 35 * Second
      then (case CreateHPA (fst st) (label (dep_Labels deployment) ''apiName'') of
              (k, Some err) \<Rightarrow> (k, snd st @ [err])
            | (k, None) \<Rightarrow> (k, snd st))
      else st)"

text \<open>
  The body of the loop over the deployments; the state is the cluster, \<open>allPods\<close>
  (\<open>None\<close> is the \<open>nil\<close> slice) and \<open>errs\<close>. The comparison of the two \<open>int32\<close>
  values is signed.
\<close>

definition deployment_step :: "Time \<Rightarrow> Kubernetes \<times> Pod list option \<times> error list \<Rightarrow> Deployment \<Rightarrow> Kubernetes \<times> Pod list option \<times> error list" where
  "deployment_step now st deployment =
     (case st of (k, allPods, errs) \<Rightarrow>
        if HPAExists k (label (dep_Labels deployment) ''apiName'') then st
        else (case (case allPods of
                      None \<Rightarrow> (case ListPodsWithLabels k of
                                 Inl msg \<Rightarrow> Inl (ExternalError msg)
                               | Inr pods \<Rightarrow> Inr pods)
                    | Some pods \<Rightarrow> Inr pods) of
                Inl err \<Rightarrow> (k, None, errs @ [err])
              | Inr pods \<Rightarrow>
                  if numUpdatedReadyReplicas deployment pods <s dep_Replicas deployment
                    then (k, Some pods, errs)
                  else (case foldl (condition_step now deployment) (k, errs)
                               (dep_Conditions deployment) of
                          (k', errs') \<Rightarrow> (k', Some pods, errs'))))"

text \<open>
  \<open>updateHPAs\<close> returns the cluster after the tick and the first of the errors.
\<close>

definition updateHPAs :: "Time \<Rightarrow> Kubernetes \<Rightarrow> Deployment list \<Rightarrow> Kubernetes \<times> error option" where
  "updateHPAs now k deployments =
     (case foldl (deployment_step now) (k, None, []) deployments of
        (k', allPods, errs) \<Rightarrow>
          (k', case errs of [] \<Rightarrow> None | err # rest \<Rightarrow> Some err))"

subsection \<open>The telemetry job of \<open>cron.go\<close>\<close>

record Node =
  node_Labels :: Labels

text \<open>
  The body of the loop of \<open>telemetryCron\<close>; the state is \<open>instanceTypeCounts\<close> (a
  Go map from string to \<open>int\<close>, whose \<open>++\<close> on a missing key starts from 0) and
  \<open>totalInstances\<close>. Neither counter can exceed the length of \<open>nodes\<close>, which is an
  \<open>int\<close>, so neither wraps.
\<close>

definition telemetry_step :: "(string \<rightharpoonup> int) \<times> int \<Rightarrow> Node \<Rightarrow> (string \<rightharpoonup> int) \<times> int" where
  "telemetry_step st node =
     (if label (node_Labels node) ''workload'' \<noteq> ''true'' then st
      else (let instanceType0 = label (node_Labels node) ''beta.kubernetes.io/instance-type'';
                instanceType = (if instanceType0 = [] then ''unknown'' else instanceType0);
                instanceTypeCounts = fst st;
                totalInstances = snd st
            in (instanceTypeCounts(instanceType \<mapsto>
                  (case instanceTypeCounts instanceType of None \<Rightarrow> 0 | Some n \<Rightarrow> n) + 1),
                totalInstances + 1)))"

text \<open>
  The event \<open>telemetry.Event("operator.cron", properties)\<close> with the two properties.
\<close>

record Event =
  event_Name :: string
  instanceTypes :: "string \<rightharpoonup> int"
  instanceCount :: int

text \<open>
  \<open>telemetryCron\<close>: \<open>nodes\<close> is the answer of \<open>config.Kubernetes.ListNodes(nil)\<close>,
  the message of its error or the nodes. The result is the error, or the event the
  job emits (the source has no \<open>return\<close> after emitting it).
\<close>

definition telemetryCron :: "string + Node list \<Rightarrow> error + Event" where
  "telemetryCron nodes =
     (case nodes of
        Inl msg \<Rightarrow> Inl (ExternalError msg)
      | Inr nodes \<Rightarrow>
          (case foldl telemetry_step (Map.empty, 0) nodes of
             (instanceTypeCounts, totalInstances) \<Rightarrow>
               Inr \<lparr>event_Name = ''operator.cron'', instanceTypes = instanceTypeCounts,
                    instanceCount = totalInstances\<rparr>))"

subsection \<open>Example inputs\<close>

text \<open>
  An object store holding the given objects, each a bucket and a key, in the order
  in which the store lists them: the three calls of \<open>Client\<close> answered from the list.
\<close>

definition store_client :: "(string \<times> string) list \<Rightarrow> Client" where
  "store_client objects =
     \<lparr>IsS3PathFile = (\<lambda>paths. list_all (\<lambda>path.
          case SplitS3Path path of Inl err \<Rightarrow> False | Inr bk \<Rightarrow> bk \<in> set objects) paths),
      IsS3PathPrefix = (\<lambda>path.
          case SplitS3Path path of
            Inl err \<Rightarrow> False
          | Inr (bucket, pre) \<Rightarrow> list_ex (\<lambda>(b, key). b = bucket \<and> prefix pre key) objects),
      ListObjects = (\<lambda>bucket pre.
          map snd (filter (\<lambda>(b, key). b = bucket \<and> prefix pre key) objects))\<rparr>"

text \<open>
  Bucket \<open>b\<close> with two complete TensorFlow exports under \<open>m/\<close>, versions 10 and 9,
  in the order of their keys.
\<close>

definition tf_objects :: "(string \<times> string) list" where
  "tf_objects =
     [(''b'', ''m/10/saved_model.pb''),
      (''b'', ''m/10/variables/variables.data-00000-of-00001''),
      (''b'', ''m/10/variables/variables.index''),
      (''b'', ''m/9/saved_model.pb''),
      (''b'', ''m/9/variables/variables.data-00000-of-00001''),
      (''b'', ''m/9/variables/variables.index'')]"

text \<open>
  Validators for the examples: a DNS-1035 label is a lower-case letter followed by
  lower-case letters, digits and dashes, not ending in a dash; every endpoint is
  accepted; a model path must start with \<open>s3://\<close>; a quantity is a decimal number
  with an optional suffix \<open>m\<close> or \<open>Mi\<close>. In the examples CPU quantities count
  millicores and memory quantities count mebibytes.
\<close>

definition example_DNS1035 :: "string \<Rightarrow> bool" where
  "example_DNS1035 name =
     (name \<noteq> [] \<and> hd name \<in> set ''abcdefghijklmnopqrstuvwxyz'' \<and> last name \<noteq> CHR ''-'' \<and>
      list_all (\<lambda>c. c \<in> set ''abcdefghijklmnopqrstuvwxyz0123456789-'') name)"

definition example_ParseQuantity :: "string \<Rightarrow> Quantity option" where
  "example_ParseQuantity str =
     (let digits = takeWhile (\<lambda>c. digit_val c \<noteq> None) str;
          suffix = dropWhile (\<lambda>c. digit_val c \<noteq> None) str
      in if digits = [] then None
         else (case parse_digits 0 digits of
                 None \<Rightarrow> None
               | Some n \<Rightarrow>
                   if suffix = ''m'' \<or> suffix = ''Mi'' then Some n
                   else if suffix = [] then Some (1000 * n)
                   else None))"

definition example_validators :: Validators where
  "example_validators =
     \<lparr>DNS1035 = example_DNS1035,
      ValidateEndpoint = (\<lambda>endpoint. Inr endpoint),
      S3PathValidator = (\<lambda>path. if HasPrefix path ''s3://'' then Inr path else Inl ''not an S3 path''),
      ParseQuantity = example_ParseQuantity\<rparr>"

text \<open>
  A cluster of instances with 4 CPUs and no GPU, 4000 Mi of memory per node, the
  reserves 800m and 1500Mi (100m and 100Mi for the device plugin), no virtual
  service, and a store client for every path.
\<close>

definition example_cluster :: ClusterConfig where
  "example_cluster =
     \<lparr>InstanceCPU = 4000, InstanceGPU = 0, cortexCPUReserve = 800, cortexMemReserve = 1500,
      nvidiaCPUReserve = 100, nvidiaMemReserve = 100\<rparr>"

definition example_env :: Env where
  "example_env =
     \<lparr>NewFromS3Path = (\<lambda>path. Inr (store_client tf_objects)),
      Cluster = example_cluster,
      ListVirtualServices = Inr [],
      updateMemoryCapacityConfigMap = Inr 4000\<rparr>"

text \<open>The project files of the examples: the one file \<open>p.py\<close>.\<close>

definition example_files :: ProjectFileMap where
  "example_files = [(''p.py'', [112, 97, 115, 115])]"

text \<open>
  The manifest \<open>[{name: "a", predictor: {type: python, path: "p.py"}}]\<close>.
\<close>

definition python_predictor :: raw_Predictor where
  "python_predictor =
     \<lparr>raw_type = Some ''python'', raw_path = Some ''p.py'', raw_model = None,
      raw_pythonPath = None, raw_signatureKey = None\<rparr>"

definition manifest_a :: "raw_API list" where
  "manifest_a =
     [\<lparr>raw_name = Some ''a'', raw_endpoint = None, raw_predictor = Some python_predictor,
       raw_compute = None\<rparr>]"

text \<open>
  A validated API with a Python predictor at \<open>p.py\<close>, the default replica bounds and
  CPU, and the given name, endpoint and memory request.
\<close>

definition python_api :: "string \<Rightarrow> string option \<Rightarrow> Quantity option \<Rightarrow> nat \<Rightarrow> API" where
  "python_api name endpoint mem i =
     \<lparr>Name = name, Endpoint = endpoint,
      predictor = \<lparr>Type = PythonPredictorType, Path = ''p.py'', Model = None, PythonPath = None,
                   SignatureKey = None\<rparr>,
      compute = \<lparr>MinReplicas = 1, MaxReplicas = 100, InitReplicas = 1, TargetCPUUtilization = 80,
                 CPU = 200, Mem = mem, GPU = 0\<rparr>,
      Index = i, FilePath = ''cortex.yaml''\<rparr>"

text \<open>
  A predictor of no known type, with a Python path; ONNX predictors with a given model
  and signature key; a store holding the one object \<open>s3://b/model.onnx\<close>; and a
  constructor of clients that fails for every path, as it does for a bucket that does
  not exist.
\<close>

definition unknown_predictor :: Predictor where
  "unknown_predictor =
     \<lparr>Type = UnknownPredictorType, Path = ''p.py'', Model = None, PythonPath = Some ''p'',
      SignatureKey = None\<rparr>"

definition onnx_predictor :: "string option \<Rightarrow> string option \<Rightarrow> Predictor" where
  "onnx_predictor model signatureKey =
     \<lparr>Type = ONNXPredictorType, Path = ''p.py'', Model = model, PythonPath = None,
      SignatureKey = signatureKey\<rparr>"

definition onnx_store :: NewFromS3Path where
  "onnx_store = (\<lambda>path. Inr (store_client [(''b'', ''model.onnx'')]))"

definition no_bucket :: NewFromS3Path where
  "no_bucket = (\<lambda>path. Inl ''NoSuchBucket'')"





subsection \<open>The error kinds of the spec\<close>


subsection \<open>The vocabulary of the telemetry claim\<close>

text \<open>
  A worker node carries the label \<open>workload=true\<close>. The instance-type label of a node
  is the value of \<open>beta.kubernetes.io/instance-type\<close>, empty when the node has none.
  \<open>bucket_of\<close> is the key under which the job counts a worker node, \<open>bucket_size\<close> the
  number of worker nodes of a bucket, and \<open>entry n\<close> the entry of a Go map of counts
  for a key that was counted \<open>n\<close> times: none when it never was.
\<close>

definition is_worker :: "Node \<Rightarrow> bool" where
  "is_worker node = (label (node_Labels node) ''workload'' = ''true'')"

definition instance_type_label :: "Node \<Rightarrow> string" where
  "instance_type_label node = label (node_Labels node) ''beta.kubernetes.io/instance-type''"

definition bucket_of :: "Node \<Rightarrow> string" where
  "bucket_of node = (if instance_type_label node = [] then ''unknown'' else instance_type_label node)"

definition bucket_size :: "Node list \<Rightarrow> string \<Rightarrow> nat" where
  "bucket_size nodes t = length (filter (\<lambda>node. is_worker node \<and> bucket_of node = t) nodes)"

definition entry :: "nat \<Rightarrow> int option" where
  "entry n = (if n = 0 then None else Some (int n))"

text \<open>
  Four nodes: two workers of type \<open>m5.large\<close>, a worker without an instance type, and
  a node of type \<open>p2.xlarge\<close> that is not a worker.
\<close>

definition example_nodes :: "Node list" where
  "example_nodes =
     [\<lparr>node_Labels = [(''workload'', ''true''), (''beta.kubernetes.io/instance-type'', ''m5.large'')]\<rparr>,
      \<lparr>node_Labels = [(''beta.kubernetes.io/instance-type'', ''p2.xlarge'')]\<rparr>,
      \<lparr>node_Labels = [(''workload'', ''true'')]\<rparr>,
      \<lparr>node_Labels = [(''beta.kubernetes.io/instance-type'', ''m5.large''), (''workload'', ''true'')]\<rparr>]"

subsection \<open>The vocabulary of the determinism claim\<close>

text \<open>
  \<open>named name apis\<close> is the list of the APIs of the manifest with the given name, in
  the order of the manifest: the offenders a \<open>DUPLICATE_NAME\<close> error lists for the name.
\<close>

definition named :: "string \<Rightarrow> API option list \<Rightarrow> API list" where
  "named name apis = [api. Some api \<leftarrow> apis, Name api = name]"

text \<open>
  Two manifests of Python APIs: one with the names \<open>a, a, b, b\<close> and one with the
  names \<open>a, a, b\<close>.
\<close>

definition dup_apis :: "API option list" where
  "dup_apis = [Some (python_api ''a'' None None 0), Some (python_api ''a'' None None 1),
               Some (python_api ''b'' None None 2), Some (python_api ''b'' None None 3)]"

definition dup_a_apis :: "API option list" where
  "dup_a_apis = [Some (python_api ''a'' None None 0), Some (python_api ''a'' None None 1),
                 Some (python_api ''b'' None None 2)]"

subsection \<open>The vocabulary of the endpoint claim\<close>

text \<open>
  The spec's duplicate-endpoint errors: the only one the package raises is
  \<open>ErrorDuplicateEndpointOtherDeployment\<close>, possibly wrapped.
\<close>

fun DUPLICATE_ENDPOINT :: "error \<Rightarrow> bool" where
  "DUPLICATE_ENDPOINT (ErrorDuplicateEndpointOtherDeployment owner) = True"
| "DUPLICATE_ENDPOINT (Wrap err path) = DUPLICATE_ENDPOINT err"
| "DUPLICATE_ENDPOINT err = False"

text \<open>
  \<open>endpoint_of api\<close> is the endpoint of an API once \<open>validateAPI\<close> has set the
  default. A virtual service serves an endpoint when it is on the gateway
  \<open>apis-gateway\<close> and the endpoint is one of its endpoints; the cluster serves an
  endpoint when one of its virtual services does.
\<close>

definition endpoint_of :: "API \<Rightarrow> string" where
  "endpoint_of api = (case Endpoint api of None \<Rightarrow> ''/'' @ Name api | Some endpoint \<Rightarrow> endpoint)"

definition serves :: "VirtualService \<Rightarrow> string \<Rightarrow> bool" where
  "serves virtualService endpoint =
     ((case vs_Gateways virtualService of Inl msg \<Rightarrow> False | Inr gateways \<Rightarrow> ''apis-gateway'' \<in> set gateways) \<and>
      (case vs_Endpoints virtualService of Inl msg \<Rightarrow> False | Inr endpoints \<Rightarrow> endpoint \<in> set endpoints))"

definition cluster_serves :: "VirtualService list \<Rightarrow> string \<Rightarrow> bool" where
  "cluster_serves virtualServices endpoint = list_ex (\<lambda>virtualService. serves virtualService endpoint) virtualServices"

text \<open>Two Python APIs named \<open>a\<close> and \<open>b\<close>, both with the endpoint \<open>/x\<close>.\<close>

definition same_endpoint_apis :: "API option list" where
  "same_endpoint_apis = [Some (python_api ''a'' (Some ''/x'') None 0), Some (python_api ''b'' (Some ''/x'') None 1)]"

subsection \<open>The vocabulary of the autoscaler claim\<close>

text \<open>
  The API name of a deployment is its label \<open>apiName\<close>. \<open>updated_ready\<close> is the number
  of pods that carry the deployment's API label, are ready and run the latest pod
  spec.
\<close>

definition apiName :: "Deployment \<Rightarrow> string" where
  "apiName deployment = label (dep_Labels deployment) ''apiName''"

definition updated_ready :: "Deployment \<Rightarrow> Pod list \<Rightarrow> nat" where
  "updated_ready deployment pods =
     length (filter (\<lambda>pod. label (pod_Labels pod) ''apiName'' = apiName deployment \<and>
                          IsPodReady pod \<and> IsPodSpecLatest pod deployment) pods)"

text \<open>
  A condition has dwelled at \<open>now\<close> when it is the progressing condition, is true,
  has a last-update time that is not zero, and that time is more than 35 seconds
  before \<open>now\<close>.
\<close>

definition dwelled :: "Time \<Rightarrow> DeploymentCondition \<Rightarrow> bool" where
  "dwelled now condition =
     (cond_Type condition = DeploymentProgressing \<and> cond_Status condition = ConditionTrue \<and>
      cond_LastUpdateTime condition \<noteq> 0 \<and> cond_LastUpdateTime condition + 35 * Second < now)"

text \<open>
  For the proofs: a deployment is up to date when the pods can be listed and the
  counted replicas are not below the desired ones; the tick installs its autoscaler,
  unless it has one, when it is up to date, one of its conditions has dwelled and the
  API server does not refuse the creation. \<open>hpas_step\<close> is the effect of one round of
  the loop over the deployments on the names that have an autoscaler, and \<open>cache_ok\<close>
  says that \<open>allPods\<close>, once set, is the list the API server gives.
\<close>

definition up_to_date :: "Kubernetes \<Rightarrow> Deployment \<Rightarrow> bool" where
  "up_to_date k deployment =
     (case ListPodsWithLabels k of
        Inl msg \<Rightarrow> False
      | Inr pods \<Rightarrow> \<not> (numUpdatedReadyReplicas deployment pods <s dep_Replicas deployment))"

definition installs :: "Time \<Rightarrow> Kubernetes \<Rightarrow> Deployment \<Rightarrow> bool" where
  "installs now k deployment =
     (up_to_date k deployment \<and> list_ex (dwelled now) (dep_Conditions deployment) \<and>
      CreateHPA_failure k (apiName deployment) = None)"

definition hpas_step :: "Time \<Rightarrow> Kubernetes \<Rightarrow> string list \<Rightarrow> Deployment \<Rightarrow> string list" where
  "hpas_step now k names deployment =
     (if apiName deployment \<notin> set names \<and> installs now k deployment
      then names @ [apiName deployment] else names)"

definition cache_ok :: "Kubernetes \<Rightarrow> Pod list option \<Rightarrow> bool" where
  "cache_ok k allPods = (case allPods of None \<Rightarrow> True | Some pods \<Rightarrow> ListPodsWithLabels k = Inr pods)"

text \<open>
  A cluster with two ready pods of the API \<open>a\<close> on the pod spec \<open>h1\<close> and the given
  autoscalers, and the deployment of \<open>a\<close>: two desired replicas, pod spec \<open>h1\<close>,
  progressing since the instant 1000 s.
\<close>

definition example_pod :: Pod where
  "example_pod = \<lparr>pod_Labels = [(''apiName'', ''a'')], pod_Ready = True, pod_SpecHash = ''h1''\<rparr>"

definition example_deployment :: Deployment where
  "example_deployment =
     \<lparr>dep_Labels = [(''apiName'', ''a'')], dep_Replicas = 2,
      dep_Conditions = [\<lparr>cond_Type = ''Available'', cond_Status = ''True'', cond_LastUpdateTime = 990 * Second\<rparr>,
                        \<lparr>cond_Type = ''Progressing'', cond_Status = ''True'', cond_LastUpdateTime = 1000 * Second\<rparr>],
      dep_SpecHash = ''h1''\<rparr>"

definition example_kubernetes :: "string list \<Rightarrow> Kubernetes" where
  "example_kubernetes names =
     \<lparr>hpas = names, ListPodsWithLabels = Inr [example_pod, example_pod],
      CreateHPA_failure = (\<lambda>name. None)\<rparr>"

section \<open>Properties\<close>

subsection \<open>Predictor validation\<close>

text \<open>
  C10. For a predictor whose type is none of Python, TensorFlow and ONNX,
  \<open>validatePredictor\<close> applies no rule of a variant: whatever the model and the
  signature key are, and without asking object storage, it succeeds and returns the
  predictor unchanged whenever the predictor's path is a key of the project files and
  its Python path, if it has one, is a prefix of some key.
\<close>

theorem validatePredictor_unknown_type:
  assumes "Type p = UnknownPredictorType"
    and "map_of projectFileMap (Path p) \<noteq> None"
    and "case PythonPath p of
           None \<Rightarrow> True
         | Some pythonPath \<Rightarrow> \<exists>fileKey \<in> fst ` set projectFileMap. prefix pythonPath fileKey"
  shows "validatePredictor newClient (p\<lparr>Model := model, SignatureKey := signatureKey\<rparr>) projectFileMap
           = Inr (p\<lparr>Model := model, SignatureKey := signatureKey\<rparr>)"
  using assms
  by (auto simp: validatePredictor_def validatePredictor_switch_def validatePythonPath_def
        HasPrefix_def list_ex_iff split: option.splits)

theorem validatePredictor_unknown_type_witness:
  "validatePredictor no_bucket
     (unknown_predictor\<lparr>Model := Some ''not a path'', SignatureKey := Some ''k''\<rparr>) example_files
   = Inr (unknown_predictor\<lparr>Model := Some ''not a path'', SignatureKey := Some ''k''\<rparr>)"
  using validatePredictor_unknown_type
          [where p = unknown_predictor and projectFileMap = example_files and newClient = no_bucket
             and model = "Some ''not a path''" and signatureKey = "Some ''k''"]
  by (simp add: unknown_predictor_def example_files_def)

text \<open>
  C6, as amended. \<open>validateONNXPredictor\<close> returns no error exactly when the model is
  present, a client for its path is obtained and finds the path to be an object, and
  the signature key is absent. Otherwise the error is that of the first check that
  fails: the model is missing (\<open>FIELD_REQUIRED_FOR_PREDICTOR_TYPE\<close>); no client is
  obtained (the error of \<open>aws.NewFromS3Path\<close>, passed on as it is); the path is not
  an object (\<open>S3_FILE_NOT_FOUND\<close>); the signature key is present
  (\<open>FIELD_NOT_SUPPORTED_BY_PREDICTOR_TYPE\<close>).
\<close>

theorem validateONNXPredictor_result:
  "(validateONNXPredictor newClient p = None \<longleftrightarrow>
      (\<exists>model awsClient. Model p = Some model \<and> newClient model = Inr awsClient \<and>
         IsS3PathFile awsClient [model] \<and> SignatureKey p = None)) \<and>
   (Model p = None \<longrightarrow>
      validateONNXPredictor newClient p
        = Some (ErrorFieldMustBeDefinedForPredictorType ModelKey ONNXPredictorType)) \<and>
   (\<forall>model msg. Model p = Some model \<and> newClient model = Inl msg \<longrightarrow>
      validateONNXPredictor newClient p = Some (ExternalError msg)) \<and>
   (\<forall>model awsClient. Model p = Some model \<and> newClient model = Inr awsClient \<and>
        \<not> IsS3PathFile awsClient [model] \<longrightarrow>
      validateONNXPredictor newClient p = Some (Wrap (ErrorS3FileNotFound model) [Str ModelKey])) \<and>
   (\<forall>model awsClient. Model p = Some model \<and> newClient model = Inr awsClient \<and>
        IsS3PathFile awsClient [model] \<and> SignatureKey p \<noteq> None \<longrightarrow>
      validateONNXPredictor newClient p
        = Some (ErrorFieldNotSupportedByPredictorType SignatureKeyKey ONNXPredictorType))"
  by (auto simp: validateONNXPredictor_def split: option.splits sum.splits)

lemma onnx_store_file:
  "IsS3PathFile (store_client [(''b'', ''model.onnx'')]) [''s3://b/model.onnx'']"
  "\<not> IsS3PathFile (store_client [(''b'', ''model.onnx'')]) [''s3://b/other.onnx'']"
  by code_simp+

theorem validateONNXPredictor_result_witness:
  "validateONNXPredictor onnx_store (onnx_predictor (Some ''s3://b/model.onnx'') None) = None \<and>
   validateONNXPredictor onnx_store (onnx_predictor None None)
     = Some (ErrorFieldMustBeDefinedForPredictorType ModelKey ONNXPredictorType) \<and>
   validateONNXPredictor no_bucket (onnx_predictor (Some ''s3://b/model.onnx'') None)
     = Some (ExternalError ''NoSuchBucket'') \<and>
   validateONNXPredictor onnx_store (onnx_predictor (Some ''s3://b/other.onnx'') None)
     = Some (Wrap (ErrorS3FileNotFound ''s3://b/other.onnx'') [Str ModelKey]) \<and>
   validateONNXPredictor onnx_store (onnx_predictor (Some ''s3://b/model.onnx'') (Some ''k''))
     = Some (ErrorFieldNotSupportedByPredictorType SignatureKeyKey ONNXPredictorType)"
  using validateONNXPredictor_result [of onnx_store "onnx_predictor (Some ''s3://b/model.onnx'') None"]
    validateONNXPredictor_result [of onnx_store "onnx_predictor None None"]
    validateONNXPredictor_result [of no_bucket "onnx_predictor (Some ''s3://b/model.onnx'') None"]
    validateONNXPredictor_result [of onnx_store "onnx_predictor (Some ''s3://b/other.onnx'') None"]
    validateONNXPredictor_result [of onnx_store "onnx_predictor (Some ''s3://b/model.onnx'') (Some ''k'')"]
    onnx_store_file
  by (simp add: onnx_store_def no_bucket_def onnx_predictor_def)

text \<open>
  C6 as stated fails: the model is present and the signature key absent, no client
  can be obtained for the model's bucket, and the error returned is that of the
  client's constructor, none of the three the claim lists.
\<close>

theorem validateONNXPredictor_client_error:
  "validateONNXPredictor no_bucket (onnx_predictor (Some ''s3://b/model.onnx'') None)
     = Some (ExternalError ''NoSuchBucket'')"
  by (simp add: validateONNXPredictor_def no_bucket_def onnx_predictor_def)

subsection \<open>Compute validation\<close>

















subsection \<open>The telemetry job\<close>

lemma telemetry_step_eq:
  "telemetry_step (m, tot) node =
     (if is_worker node
      then (m(bucket_of node \<mapsto> (case m (bucket_of node) of None \<Rightarrow> 0 | Some n \<Rightarrow> n) + 1), tot + 1)
      else (m, tot))"
  by (simp add: telemetry_step_def Let_def is_worker_def bucket_of_def instance_type_label_def)

lemma telemetry_step_sum:
  assumes "finite (dom m)"
  shows "(\<Sum>k \<in> dom (m(t \<mapsto> (case m t of None \<Rightarrow> 0 | Some n \<Rightarrow> n) + 1)).
            the ((m(t \<mapsto> (case m t of None \<Rightarrow> 0 | Some n \<Rightarrow> n) + 1)) k))
         = (\<Sum>k \<in> dom m. the (m k)) + (1::int)"
proof (cases "m t")
  case None
  then have notin: "t \<notin> dom m" by auto
  have "(\<Sum>k \<in> dom m. the ((m(t \<mapsto> 1)) k)) = (\<Sum>k \<in> dom m. the (m k))"
    using notin by (intro sum.cong) auto
  with assms None notin show ?thesis by simp
next
  case (Some n)
  then have tin: "t \<in> dom m" by auto
  then have d: "dom (m(t \<mapsto> n + 1)) = dom m" by auto
  have "(\<Sum>k \<in> dom m. the ((m(t \<mapsto> n + 1)) k)) = (n + 1) + (\<Sum>k \<in> dom m - {t}. the ((m(t \<mapsto> n + 1)) k))"
    using assms tin by (simp add: sum.remove)
  also have "(\<Sum>k \<in> dom m - {t}. the ((m(t \<mapsto> n + 1)) k)) = (\<Sum>k \<in> dom m - {t}. the (m k))"
    by (rule sum.cong) auto
  also have "(\<Sum>k \<in> dom m. the (m k)) = n + (\<Sum>k \<in> dom m - {t}. the (m k))"
    using assms tin Some by (simp add: sum.remove)
  ultimately show ?thesis using Some d by simp
qed

lemma telemetry_loop_bucket:
  "fst (foldl telemetry_step (m, tot) nodes) t
     = (if m t = None \<and> bucket_size nodes t = 0 then None
        else Some ((case m t of None \<Rightarrow> 0 | Some n \<Rightarrow> n) + int (bucket_size nodes t)))"
proof (induction nodes arbitrary: m tot)
  case Nil
  show ?case by (simp add: bucket_size_def split: option.splits)
next
  case (Cons node nodes)
  show ?case
  proof (cases "is_worker node")
    case False
    then have "foldl telemetry_step (m, tot) (node # nodes) = foldl telemetry_step (m, tot) nodes"
      by (simp add: telemetry_step_eq)
    moreover have "bucket_size (node # nodes) t = bucket_size nodes t"
      using False by (simp add: bucket_size_def)
    ultimately show ?thesis using Cons.IH [of m tot] by (simp only:)
  next
    case True
    define m' where "m' = m(bucket_of node \<mapsto> (case m (bucket_of node) of None \<Rightarrow> 0 | Some n \<Rightarrow> n) + 1)"
    have fold: "foldl telemetry_step (m, tot) (node # nodes) = foldl telemetry_step (m', tot + 1) nodes"
      using True by (simp add: telemetry_step_eq m'_def)
    have size: "bucket_size (node # nodes) t = bucket_size nodes t + (if bucket_of node = t then 1 else 0)"
      using True by (simp add: bucket_size_def)
    have m't: "m' t = (if bucket_of node = t then Some ((case m t of None \<Rightarrow> 0 | Some n \<Rightarrow> n) + 1) else m t)"
      by (auto simp: m'_def)
    have "fst (foldl telemetry_step (m', tot + 1) nodes) t
        = (if m' t = None \<and> bucket_size nodes t = 0 then None
           else Some ((case m' t of None \<Rightarrow> 0 | Some n \<Rightarrow> n) + int (bucket_size nodes t)))"
      by (rule Cons.IH)
    then show ?thesis
      unfolding fold size m't by (cases "bucket_of node = t") (simp_all split: option.splits)
  qed
qed

lemma telemetry_loop_total:
  "snd (foldl telemetry_step (m, tot) nodes) = tot + int (length (filter is_worker nodes))"
proof (induction nodes arbitrary: m tot)
  case Nil
  show ?case by simp
next
  case (Cons node nodes)
  show ?case
  proof (cases "is_worker node")
    case False
    then have "foldl telemetry_step (m, tot) (node # nodes) = foldl telemetry_step (m, tot) nodes"
      by (simp add: telemetry_step_eq)
    then show ?thesis using False Cons.IH [of m tot] by simp
  next
    case True
    define m' where "m' = m(bucket_of node \<mapsto> (case m (bucket_of node) of None \<Rightarrow> 0 | Some n \<Rightarrow> n) + 1)"
    have "foldl telemetry_step (m, tot) (node # nodes) = foldl telemetry_step (m', tot + 1) nodes"
      using True by (simp add: telemetry_step_eq m'_def)
    then show ?thesis using True Cons.IH [of m' "tot + 1"] by simp
  qed
qed

lemma telemetry_loop_sum:
  assumes "finite (dom m)"
  shows "(\<Sum>k \<in> dom (fst (foldl telemetry_step (m, tot) nodes)).
            the (fst (foldl telemetry_step (m, tot) nodes) k))
           - snd (foldl telemetry_step (m, tot) nodes)
         = (\<Sum>k \<in> dom m. the (m k)) - tot"
  using assms
proof (induction nodes arbitrary: m tot)
  case Nil
  show ?case by simp
next
  case (Cons node nodes)
  show ?case
  proof (cases "is_worker node")
    case False
    then have "foldl telemetry_step (m, tot) (node # nodes) = foldl telemetry_step (m, tot) nodes"
      by (simp add: telemetry_step_eq)
    then show ?thesis using Cons.IH [OF Cons.prems, of tot] by simp
  next
    case True
    define m' where "m' = m(bucket_of node \<mapsto> (case m (bucket_of node) of None \<Rightarrow> 0 | Some n \<Rightarrow> n) + 1)"
    have fin: "finite (dom m')" using Cons.prems by (simp add: m'_def)
    have fold: "foldl telemetry_step (m, tot) (node # nodes) = foldl telemetry_step (m', tot + 1) nodes"
      using True by (simp add: telemetry_step_eq m'_def)
    have "(\<Sum>k \<in> dom m'. the (m' k)) = (\<Sum>k \<in> dom m. the (m k)) + 1"
      unfolding m'_def by (rule telemetry_step_sum [OF Cons.prems])
    then show ?thesis using Cons.IH [OF fin, of "tot + 1"] fold by simp
  qed
qed

lemma telemetryCron_event:
  "\<exists>ev. telemetryCron (Inr nodes) = Inr ev \<and>
     (\<forall>t. instanceTypes ev t = entry (bucket_size nodes t)) \<and>
     instanceCount ev = int (length (filter is_worker nodes)) \<and>
     instanceCount ev = (\<Sum>t \<in> dom (instanceTypes ev). the (instanceTypes ev t))"
proof -
  obtain m tot where fold: "foldl telemetry_step (Map.empty, 0) nodes = (m, tot)"
    by (cases "foldl telemetry_step (Map.empty, 0) nodes")
  have "m t = entry (bucket_size nodes t)" for t
    using telemetry_loop_bucket [of Map.empty 0 nodes t] fold by (simp add: entry_def)
  moreover have "tot = int (length (filter is_worker nodes))"
    using telemetry_loop_total [of Map.empty 0 nodes] fold by simp
  moreover have "(\<Sum>k \<in> dom m. the (m k)) - tot = 0"
    using telemetry_loop_sum [of Map.empty 0 nodes] fold by simp
  ultimately show ?thesis using fold by (simp add: telemetryCron_def)
qed

text \<open>
  C9. For every list of nodes the job emits an event. Its \<open>instanceTypes\<close> maps each
  instance-type label to the number of worker nodes bearing it; the worker nodes
  without an instance-type label are counted under \<open>unknown\<close> (together with those
  whose label is \<open>unknown\<close>); nodes that are not workers are counted nowhere, so a
  label that no worker node bears has no entry; and \<open>instanceCount\<close> is the number of
  worker nodes and the sum of all values of \<open>instanceTypes\<close>.
\<close>

theorem telemetryCron_counts:
  "\<exists>ev. telemetryCron (Inr nodes) = Inr ev \<and>
     (\<forall>t. t \<noteq> [] \<and> t \<noteq> ''unknown'' \<longrightarrow>
        instanceTypes ev t
          = entry (length (filter (\<lambda>node. is_worker node \<and> instance_type_label node = t) nodes))) \<and>
     instanceTypes ev ''unknown''
       = entry (length (filter (\<lambda>node. is_worker node \<and>
            (instance_type_label node = [] \<or> instance_type_label node = ''unknown'')) nodes)) \<and>
     instanceTypes ev [] = None \<and>
     instanceCount ev = int (length (filter is_worker nodes)) \<and>
     instanceCount ev = (\<Sum>t \<in> dom (instanceTypes ev). the (instanceTypes ev t))"
proof -
  have other: "bucket_size nodes t
      = length (filter (\<lambda>node. is_worker node \<and> instance_type_label node = t) nodes)"
    if "t \<noteq> []" "t \<noteq> ''unknown''" for t
    unfolding bucket_size_def using that
    by (intro arg_cong [where f = length] filter_cong) (auto simp: bucket_of_def)
  have unknown: "bucket_size nodes ''unknown''
      = length (filter (\<lambda>node. is_worker node \<and>
            (instance_type_label node = [] \<or> instance_type_label node = ''unknown'')) nodes)"
    unfolding bucket_size_def
    by (intro arg_cong [where f = length] filter_cong) (auto simp: bucket_of_def)
  have empty: "bucket_size nodes [] = 0"
    by (auto simp: bucket_size_def bucket_of_def)
  from telemetryCron_event [of nodes] obtain ev where ev: "telemetryCron (Inr nodes) = Inr ev"
    "\<forall>t. instanceTypes ev t = entry (bucket_size nodes t)"
    "instanceCount ev = int (length (filter is_worker nodes))"
    "instanceCount ev = (\<Sum>t \<in> dom (instanceTypes ev). the (instanceTypes ev t))"
    by blast
  show ?thesis
  proof (intro exI [of _ ev] conjI allI impI)
    show "telemetryCron (Inr nodes) = Inr ev" by (rule ev(1))
    show "instanceTypes ev t
        = entry (length (filter (\<lambda>node. is_worker node \<and> instance_type_label node = t) nodes))"
      if "t \<noteq> [] \<and> t \<noteq> ''unknown''" for t
      using ev(2) other [of t] that by simp
    show "instanceTypes ev ''unknown''
       = entry (length (filter (\<lambda>node. is_worker node \<and>
            (instance_type_label node = [] \<or> instance_type_label node = ''unknown'')) nodes))"
      using ev(2) unknown by simp
    show "instanceTypes ev [] = None" using ev(2) empty by (simp add: entry_def)
    show "instanceCount ev = int (length (filter is_worker nodes))" by (rule ev(3))
    show "instanceCount ev = (\<Sum>t \<in> dom (instanceTypes ev). the (instanceTypes ev t))" by (rule ev(4))
  qed
qed

lemma example_nodes_counts:
  "length (filter (\<lambda>node. is_worker node \<and> instance_type_label node = ''m5.large'') example_nodes) = 2"
  "length (filter (\<lambda>node. is_worker node \<and> instance_type_label node = ''p2.xlarge'') example_nodes) = 0"
  "length (filter (\<lambda>node. is_worker node \<and>
     (instance_type_label node = [] \<or> instance_type_label node = ''unknown'')) example_nodes) = 1"
  "length (filter is_worker example_nodes) = 3"
  by (simp_all add: example_nodes_def is_worker_def instance_type_label_def label_def)

theorem telemetryCron_counts_witness:
  "\<exists>ev. telemetryCron (Inr example_nodes) = Inr ev \<and>
     instanceTypes ev ''m5.large'' = Some 2 \<and>
     instanceTypes ev ''p2.xlarge'' = None \<and>
     instanceTypes ev ''unknown'' = Some 1 \<and>
     instanceCount ev = 3"
proof -
  from telemetryCron_counts [of example_nodes] obtain ev where
    ev: "telemetryCron (Inr example_nodes) = Inr ev"
    and other: "\<forall>t. t \<noteq> [] \<and> t \<noteq> ''unknown'' \<longrightarrow>
        instanceTypes ev t
          = entry (length (filter (\<lambda>node. is_worker node \<and> instance_type_label node = t) example_nodes))"
    and unknown: "instanceTypes ev ''unknown''
       = entry (length (filter (\<lambda>node. is_worker node \<and>
            (instance_type_label node = [] \<or> instance_type_label node = ''unknown'')) example_nodes))"
    and count: "instanceCount ev = int (length (filter is_worker example_nodes))"
    by blast
  have "instanceTypes ev ''m5.large'' = Some 2"
    using other [rule_format, of "''m5.large''"] by (simp add: example_nodes_counts entry_def)
  moreover have "instanceTypes ev ''p2.xlarge'' = None"
    using other [rule_format, of "''p2.xlarge''"] by (simp add: example_nodes_counts entry_def)
  moreover have "instanceTypes ev ''unknown'' = Some 1"
    using unknown by (simp add: example_nodes_counts entry_def)
  moreover have "instanceCount ev = 3"
    using count by (simp add: example_nodes_counts)
  ultimately show ?thesis using ev by blast
qed

subsection \<open>The entry point\<close>

lemma ExtractAPIConfigs_loop_appends:
  "ExtractAPIConfigs_loop v filePath i datas apis = Inr apis' \<Longrightarrow>
     \<exists>new. apis' = apis @ new \<and> length new = length datas"
proof (induction datas arbitrary: i apis)
  case Nil
  then show ?case by simp
next
  case (Cons data datas)
  from Cons.prems obtain api where
    rest: "ExtractAPIConfigs_loop v filePath (Suc i) datas
             (apis @ [Some (api\<lparr>Index := i, FilePath := filePath\<rparr>)]) = Inr apis'"
    by (auto split: sum.splits)
  from Cons.IH [OF rest] obtain new where
    "apis' = (apis @ [Some (api\<lparr>Index := i, FilePath := filePath\<rparr>)]) @ new"
    "length new = length datas"
    by blast
  then have "apis' = apis @ (Some (api\<lparr>Index := i, FilePath := filePath\<rparr>) # new) \<and>
             length (Some (api\<lparr>Index := i, FilePath := filePath\<rparr>) # new) = length (data # datas)"
    by simp
  then show ?case by blast
qed

lemma validateAPIs_nil_entry:
  "validateAPIs env order (None # apis) projectFileMap = Inl PanicNilPointerDereference"
  by (simp add: validateAPIs_def findDuplicateNames_def)

lemma ExtractAPIConfigs_never_accepts:
  "\<exists>err. ExtractAPIConfigs v env order configData projectFileMap filePath = Inl err"
proof (cases configData)
  case (Inl msg)
  then show ?thesis by (simp add: ExtractAPIConfigs_def)
next
  case (Inr data)
  show ?thesis
  proof (cases data)
    case OtherData
    with Inr show ?thesis by (simp add: ExtractAPIConfigs_def)
  next
    case (StrInterfaceMapSlice datas)
    show ?thesis
    proof (cases "ExtractAPIConfigs_loop v filePath 0 datas (replicate (length datas) None)")
      case (Inl err)
      with Inr StrInterfaceMapSlice show ?thesis by (simp add: ExtractAPIConfigs_def)
    next
      case loop: (Inr apis)
      then obtain new where apis: "apis = replicate (length datas) None @ new"
        using ExtractAPIConfigs_loop_appends by blast
      have "\<exists>err. validateAPIs env order apis projectFileMap = Inl err"
      proof (cases datas)
        case Nil
        with loop show ?thesis by (simp add: validateAPIs_def)
      next
        case (Cons d ds)
        with apis have "apis = None # (replicate (length ds) None @ new)" by simp
        then show ?thesis using validateAPIs_nil_entry by blast
      qed
      with Inr StrInterfaceMapSlice loop show ?thesis by (auto simp: ExtractAPIConfigs_def)
    qed
  qed
qed

text \<open>
  C1 fails on the code. \<open>ExtractAPIConfigs\<close> makes \<open>apis\<close> with one \<open>nil\<close> pointer per
  manifest entry and then appends every validated API, so for the one-entry manifest
  \<open>[{name: "a", predictor: {type: python, path: "p.py"}}]\<close> the loop leaves the slice
  \<open>[nil, a]\<close>; \<open>validateAPIs\<close> reads the name of its first entry in
  \<open>findDuplicateNames\<close> and panics. No list of one API is returned. (By
  \<open>ExtractAPIConfigs_never_accepts\<close> the entry point returns no list for any input.)
\<close>

theorem ExtractAPIConfigs_one_entry_panics:
  "ExtractAPIConfigs_loop example_validators ''cortex.yaml'' 0 manifest_a [None]
     = Inr [None, Some (python_api ''a'' None None 0)] \<and>
   ExtractAPIConfigs example_validators example_env [''a'']
       (Inr (StrInterfaceMapSlice manifest_a)) example_files ''cortex.yaml''
     = Inl PanicNilPointerDereference"
  by code_simp

subsection \<open>The memory capacity within one pass\<close>

lemma validateAvailableCompute_maxMem:
  "fst (validateAvailableCompute cfg c maxMem)
     = maxMem - cortexMemReserve cfg - (if InstanceGPU cfg > 0 then nvidiaMemReserve cfg else 0)"
  by (simp add: validateAvailableCompute_def Let_def)

text \<open>
  C2 fails on the code. \<open>validateAvailableCompute\<close> subtracts the reserve from the
  quantity behind the one \<open>maxMem\<close> pointer of the pass, so each API is checked
  against less memory than the one before it. With 4000 Mi per node and a reserve of
  1500 Mi, of two APIs that each request 2000 Mi the first is checked against 2500 Mi
  and the second against 1000 Mi and rejected, while the second API in a manifest of
  its own is accepted.
\<close>

theorem validateAPIs_second_api_less_memory:
  "validateAPIs example_env [''a'', ''b'']
       [Some (python_api ''a'' None (Some 2000) 0), Some (python_api ''b'' None (Some 2000) 1)]
       example_files
     = Inl (Wrap (ErrorNoAvailableNodeComputeLimit ''Memory'' 2000 1000)
              [IdentifyAPI ''cortex.yaml'' ''b'' 1, Str ComputeKey]) \<and>
   validateAPIs example_env [''b''] [Some (python_api ''b'' None (Some 2000) 1)] example_files
     = Inr [Some ((python_api ''b'' None (Some 2000) 1)\<lparr>Endpoint := Some ''/b''\<rparr>)]"
  by code_simp

subsection \<open>TensorFlow version resolution\<close>

text \<open>
  C4 fails on the code. The loop parses \<open>keyParts[len(keyParts)-1]\<close>, the file name
  \<open>saved_model.pb\<close>, not the directory before it, so every version is 0 (lemma
  \<open>versionStr_never_parses\<close>) and the last valid directory of the listing wins. With
  complete exports under \<open>m/10\<close> and \<open>m/9\<close>, listed in the order of their keys, the
  path \<open>s3://b/m\<close> resolves to version 9 although version 10 is valid.
\<close>

theorem getTFServingExportFromS3Path_selects_lower_version:
  "\<not> isValidTensorFlowS3Directory ''s3://b/m'' (store_client tf_objects) \<and>
   isValidTensorFlowS3Directory ''s3://b/m/10'' (store_client tf_objects) \<and>
   isValidTensorFlowS3Directory ''s3://b/m/9'' (store_client tf_objects) \<and>
   ListObjects (store_client tf_objects) ''b'' ''m/'' = map snd tf_objects \<and>
   getTFServingExportFromS3Path ''s3://b/m'' (store_client tf_objects) = Inr ''s3://b/m/9''"
  by code_simp

lemma parse_digits_last:
  "s \<noteq> [] \<Longrightarrow> digit_val (last s) = None \<Longrightarrow> parse_digits acc s = None"
proof (induction s arbitrary: acc)
  case Nil
  then show ?case by simp
next
  case (Cons c cs)
  then show ?case by (cases "cs = []") (auto split: option.splits)
qed

lemma Split_not_Nil: "Split s sep \<noteq> []"
  by (induction s) (auto split: list.splits)

lemma last_Split:
  "s \<noteq> [] \<Longrightarrow> last s \<noteq> sep \<Longrightarrow>
     last (Split s sep) \<noteq> [] \<and> last (last (Split s sep)) = last s"
proof (induction s)
  case Nil
  then show ?case by simp
next
  case (Cons c cs)
  show ?case
  proof (cases "cs = []")
    case True
    with Cons.prems show ?thesis by simp
  next
    case False
    with Cons Split_not_Nil [of cs sep] show ?thesis by (auto split: list.splits)
  qed
qed

lemma versionStr_never_parses:
  assumes "HasSuffix key ''saved_model.pb''"
  shows "ParseInt (last (Split key (CHR ''/''))) = None"
proof -
  from assms obtain zs where "rev key = rev ''saved_model.pb'' @ zs"
    unfolding HasSuffix_def prefix_def by blast
  then have "rev (rev key) = rev (rev ''saved_model.pb'' @ zs)" by (rule arg_cong)
  then have key: "key = rev zs @ ''saved_model.pb''" by (simp only: rev_rev_ident rev_append)
  then have k: "key \<noteq> []" "last key = CHR ''b''" by simp_all
  define s where "s = last (Split key (CHR ''/''))"
  have s: "s \<noteq> []" "last s = CHR ''b''"
    using last_Split [of key "CHR ''/''"] k by (simp_all add: s_def)
  have nd: "digit_val (CHR ''b'') = None" by (simp add: digit_val_def)
  have "parse_digits 0 s = None" using s nd by (simp add: parse_digits_last)
  moreover have "tl s \<noteq> [] \<Longrightarrow> parse_digits 0 (tl s) = None"
    using s nd by (intro parse_digits_last) (auto simp: last_tl)
  ultimately show ?thesis unfolding s_def [symmetric] by (auto simp: ParseInt_def Let_def)
qed

text \<open>
  What does hold of the resolution: a path it selects is a valid TensorFlow
  directory, and the version it compares stays 0.
\<close>

lemma tf_loop_valid:
  "snd st = [] \<or> isValidTensorFlowS3Directory (snd st) awsClient \<Longrightarrow>
     snd (foldl (tf_step bucket awsClient) st contents) = [] \<or>
     isValidTensorFlowS3Directory (snd (foldl (tf_step bucket awsClient) st contents)) awsClient"
proof (induction contents arbitrary: st)
  case Nil
  then show ?case by simp
next
  case (Cons key contents)
  have "snd (tf_step bucket awsClient st key) = [] \<or>
        isValidTensorFlowS3Directory (snd (tf_step bucket awsClient st key)) awsClient"
    using Cons.prems by (auto simp: tf_step_def Let_def)
  from Cons.IH [OF this] show ?case by simp
qed

lemma getTFServingExportFromS3Path_valid:
  assumes "getTFServingExportFromS3Path path awsClient = Inr selected" and "selected \<noteq> []"
  shows "isValidTensorFlowS3Directory selected awsClient"
proof (cases "isValidTensorFlowS3Directory path awsClient")
  case True
  with assms show ?thesis by (simp add: getTFServingExportFromS3Path_def)
next
  case False
  with assms obtain bucket prefix0 where
    "selected = snd (foldl (tf_step bucket awsClient) (0, [])
                       (ListObjects awsClient bucket (EnsureSuffix prefix0 ''/'')))"
    by (auto simp: getTFServingExportFromS3Path_def Let_def split: sum.splits)
  with tf_loop_valid [of "(0, [])" awsClient bucket] assms(2) show ?thesis by auto
qed

lemma tf_step_version_zero:
  "fst st = 0 \<Longrightarrow> fst (tf_step bucket awsClient st key) = 0"
  using versionStr_never_parses [of key] by (auto simp: tf_step_def Let_def)

subsection \<open>Determinism of a validation pass\<close>

lemma names_loop_panic:
  "None \<in> set apis \<Longrightarrow> names_loop names apis = Inl PanicNilPointerDereference"
proof (induction apis arbitrary: names)
  case Nil
  then show ?case by simp
next
  case (Cons api apis)
  then show ?case by (cases api) auto
qed

lemma names_loop_groups:
  "None \<notin> set apis \<Longrightarrow> names_loop names apis = Inr (\<lambda>name. names name @ named name apis)"
proof (induction apis arbitrary: names)
  case Nil
  then show ?case by (simp add: named_def)
next
  case (Cons api apis)
  then obtain a where a: "api = Some a" by (cases api) auto
  have "names_loop (names(Name a := names (Name a) @ [a])) apis
      = Inr (\<lambda>name. (names(Name a := names (Name a) @ [a])) name @ named name apis)"
    using Cons by simp
  moreover have "(\<lambda>name. (names(Name a := names (Name a) @ [a])) name @ named name apis)
      = (\<lambda>name. names name @ named name (Some a # apis))"
    by (rule ext) (simp add: named_def)
  ultimately show ?case using a by simp
qed

lemma first_group_Nil:
  "first_group names order = [] \<longleftrightarrow> (\<forall>name \<in> set order. length (names name) \<le> 1)"
  by (induction order) auto

lemma first_group_some:
  "first_group names order \<noteq> [] \<Longrightarrow>
     \<exists>name \<in> set order. first_group names order = names name \<and> 1 < length (names name)"
  by (induction order) (auto split: if_splits)

lemma findDuplicateNames_cases:
  "findDuplicateNames order apis = Inl PanicNilPointerDereference \<and> None \<in> set apis \<or>
   findDuplicateNames order apis = Inr [] \<and> None \<notin> set apis \<and>
     (\<forall>name \<in> set order. length (named name apis) \<le> 1) \<or>
   (\<exists>name \<in> set order. findDuplicateNames order apis = Inr (named name apis) \<and>
      1 < length (named name apis))"
proof (cases "None \<in> set apis")
  case True
  then show ?thesis by (simp add: findDuplicateNames_def names_loop_panic)
next
  case False
  then have f: "findDuplicateNames order apis = Inr (first_group (\<lambda>name. named name apis) order)"
    by (simp add: findDuplicateNames_def names_loop_groups)
  show ?thesis
  proof (cases "first_group (\<lambda>name. named name apis) order = []")
    case True
    then show ?thesis using f False first_group_Nil [of "\<lambda>name. named name apis" order] by simp
  next
    case nonempty: False
    then show ?thesis using f first_group_some [OF nonempty] by auto
  qed
qed

text \<open>
  C5, as amended. Two passes over the same manifest, project files and environment
  differ at most in the order in which \<open>findDuplicateNames\<close> ranges over its map of
  names. Whatever the two orders are, the passes return the same result, or both
  fail with a \<open>DUPLICATE_NAME\<close> error, each listing the APIs of one name that occurs
  more than once, in the order of the manifest. When at most one name is duplicated
  the two results are the same.
\<close>

theorem validateAPIs_deterministic_up_to_reported_name:
  assumes "range_order order1 apis" and "range_order order2 apis"
  shows "(validateAPIs env order1 apis projectFileMap = validateAPIs env order2 apis projectFileMap \<or>
          (\<exists>name1 name2.
             validateAPIs env order1 apis projectFileMap = Inl (ErrorDuplicateName (named name1 apis)) \<and>
             validateAPIs env order2 apis projectFileMap = Inl (ErrorDuplicateName (named name2 apis)) \<and>
             1 < length (named name1 apis) \<and> 1 < length (named name2 apis))) \<and>
         ((\<forall>name1 name2. 1 < length (named name1 apis) \<and> 1 < length (named name2 apis)
              \<longrightarrow> name1 = name2) \<longrightarrow>
          validateAPIs env order1 apis projectFileMap = validateAPIs env order2 apis projectFileMap)"
proof -
  from assms have orders: "set order1 = set order2" by (simp add: range_order_def)
  consider (panic) "None \<in> set apis"
    | (none) "None \<notin> set apis" "\<forall>name \<in> set order1. length (named name apis) \<le> 1"
    | (some) name1 where "name1 \<in> set order1"
        "findDuplicateNames order1 apis = Inr (named name1 apis)" "1 < length (named name1 apis)"
    using findDuplicateNames_cases [of order1 apis] by blast
  then show ?thesis
  proof cases
    case panic
    then have "findDuplicateNames order1 apis = findDuplicateNames order2 apis"
      by (simp add: findDuplicateNames_def names_loop_panic)
    then show ?thesis by (simp add: validateAPIs_def)
  next
    case none
    then have "first_group (\<lambda>name. named name apis) order1 = []"
      "first_group (\<lambda>name. named name apis) order2 = []"
      using orders by (simp_all add: first_group_Nil)
    with none(1) have "findDuplicateNames order1 apis = findDuplicateNames order2 apis"
      by (simp add: findDuplicateNames_def names_loop_groups)
    then show ?thesis by (simp add: validateAPIs_def)
  next
    case some
    have "\<not> (\<forall>name \<in> set order2. length (named name apis) \<le> 1)"
      using some(1,3) orders by (auto simp: not_le intro!: bexI [of _ name1])
    moreover have "None \<notin> set apis" using some(2) findDuplicateNames_cases [of order1 apis]
      by (auto simp: findDuplicateNames_def names_loop_panic)
    ultimately obtain name2 where name2:
      "findDuplicateNames order2 apis = Inr (named name2 apis)" "1 < length (named name2 apis)"
      using findDuplicateNames_cases [of order2 apis] by auto
    have apis: "apis \<noteq> []" using some(3) by (auto simp: named_def)
    have r1: "validateAPIs env order1 apis projectFileMap = Inl (ErrorDuplicateName (named name1 apis))"
      using some(2,3) apis by (auto simp: validateAPIs_def)
    have r2: "validateAPIs env order2 apis projectFileMap = Inl (ErrorDuplicateName (named name2 apis))"
      using name2 apis by (auto simp: validateAPIs_def)
    show ?thesis
    proof (intro conjI impI)
      show "validateAPIs env order1 apis projectFileMap = validateAPIs env order2 apis projectFileMap \<or>
          (\<exists>name1 name2.
             validateAPIs env order1 apis projectFileMap = Inl (ErrorDuplicateName (named name1 apis)) \<and>
             validateAPIs env order2 apis projectFileMap = Inl (ErrorDuplicateName (named name2 apis)) \<and>
             1 < length (named name1 apis) \<and> 1 < length (named name2 apis))"
        using r1 r2 some(3) name2(2) by blast
      assume "\<forall>name1 name2. 1 < length (named name1 apis) \<and> 1 < length (named name2 apis)
              \<longrightarrow> name1 = name2"
      then have "name1 = name2" using some(3) name2(2) by blast
      then show "validateAPIs env order1 apis projectFileMap = validateAPIs env order2 apis projectFileMap"
        using r1 r2 by simp
    qed
  qed
qed

text \<open>
  C5 as stated fails: with the names \<open>a, a, b, b\<close> in the manifest, a pass whose
  range visits \<open>a\<close> first reports the two APIs named \<open>a\<close>, and a pass whose range
  visits \<open>b\<close> first reports the two APIs named \<open>b\<close>.
\<close>

theorem validateAPIs_reported_name_depends_on_order:
  "range_order [''a'', ''b''] dup_apis \<and> range_order [''b'', ''a''] dup_apis \<and>
   validateAPIs example_env [''a'', ''b''] dup_apis example_files
     = Inl (ErrorDuplicateName [python_api ''a'' None None 0, python_api ''a'' None None 1]) \<and>
   validateAPIs example_env [''b'', ''a''] dup_apis example_files
     = Inl (ErrorDuplicateName [python_api ''b'' None None 2, python_api ''b'' None None 3])"
  by code_simp

lemma range_orders:
  "range_order [''a'', ''b''] dup_apis" "range_order [''b'', ''a''] dup_apis"
  "range_order [''a'', ''b''] dup_a_apis" "range_order [''b'', ''a''] dup_a_apis"
  by code_simp+

lemma dup_a_apis_named:
  "1 < length (named name dup_a_apis) \<Longrightarrow> name = ''a''"
  by (auto simp: named_def dup_a_apis_def python_api_def split: if_splits)

theorem validateAPIs_deterministic_up_to_reported_name_witness:
  "validateAPIs example_env [''a'', ''b''] dup_a_apis example_files
     = validateAPIs example_env [''b'', ''a''] dup_a_apis example_files \<and>
   (validateAPIs example_env [''a'', ''b''] dup_apis example_files
      = validateAPIs example_env [''b'', ''a''] dup_apis example_files \<or>
    (\<exists>name1 name2.
       validateAPIs example_env [''a'', ''b''] dup_apis example_files
         = Inl (ErrorDuplicateName (named name1 dup_apis)) \<and>
       validateAPIs example_env [''b'', ''a''] dup_apis example_files
         = Inl (ErrorDuplicateName (named name2 dup_apis)) \<and>
       1 < length (named name1 dup_apis) \<and> 1 < length (named name2 dup_apis)))"
  using validateAPIs_deterministic_up_to_reported_name [OF range_orders(3) range_orders(4), of example_env example_files]
    validateAPIs_deterministic_up_to_reported_name [OF range_orders(1) range_orders(2), of example_env example_files]
    dup_a_apis_named
  by blast

subsection \<open>Endpoint collisions within a manifest\<close>

lemma endpoint_loop_duplicate:
  "endpoint_loop api vs endpoints = Some err \<Longrightarrow> DUPLICATE_ENDPOINT err \<Longrightarrow>
     endpoint_of api \<in> set endpoints \<and> label (vs_Labels vs) ''apiName'' \<noteq> Name api"
  by (induction endpoints) (auto simp: endpoint_of_def split: option.splits if_splits)

lemma validateEndpointCollisions_duplicate:
  "validateEndpointCollisions api virtualServices = Some err \<Longrightarrow> DUPLICATE_ENDPOINT err \<Longrightarrow>
     \<exists>vs \<in> set virtualServices. serves vs (endpoint_of api) \<and>
        label (vs_Labels vs) ''apiName'' \<noteq> Name api"
proof (induction virtualServices)
  case Nil
  then show ?case by simp
next
  case (Cons vs rest)
  show ?case
  proof (cases "vs_Gateways vs")
    case (Inl msg)
    with Cons.prems show ?thesis by auto
  next
    case gw: (Inr gateways)
    show ?thesis
    proof (cases "''apis-gateway'' \<in> set gateways")
      case False
      with gw Cons show ?thesis by simp
    next
      case True
      show ?thesis
      proof (cases "vs_Endpoints vs")
        case (Inl msg)
        with gw True Cons.prems show ?thesis by auto
      next
        case ep: (Inr endpoints)
        show ?thesis
        proof (cases "endpoint_loop api vs endpoints")
          case None
          with gw True ep Cons show ?thesis by simp
        next
          case (Some err')
          with gw True ep Cons.prems have "err' = err" by simp
          with Some Cons.prems(2) endpoint_loop_duplicate [of api vs endpoints err]
          have "endpoint_of api \<in> set endpoints \<and> label (vs_Labels vs) ''apiName'' \<noteq> Name api"
            by simp
          with gw True ep show ?thesis by (simp add: serves_def)
        qed
      qed
    qed
  qed
qed

lemma validateTensorFlowPredictor_not_duplicate:
  "validateTensorFlowPredictor newClient p = Inl err \<Longrightarrow> \<not> DUPLICATE_ENDPOINT err"
  by (auto simp: validateTensorFlowPredictor_def split: option.splits sum.splits if_splits)

lemma validateONNXPredictor_not_duplicate:
  "validateONNXPredictor newClient p = Some err \<Longrightarrow> \<not> DUPLICATE_ENDPOINT err"
  by (auto simp: validateONNXPredictor_def split: option.splits sum.splits if_splits)

lemma validatePythonPredictor_not_duplicate:
  "validatePythonPredictor p = Some err \<Longrightarrow> \<not> DUPLICATE_ENDPOINT err"
  by (auto simp: validatePythonPredictor_def split: if_splits)

lemma validatePredictor_switch_not_duplicate:
  "validatePredictor_switch newClient p = Inl err \<Longrightarrow> \<not> DUPLICATE_ENDPOINT err"
  using validateTensorFlowPredictor_not_duplicate validateONNXPredictor_not_duplicate
    validatePythonPredictor_not_duplicate
  by (cases "Type p") (auto simp: validatePredictor_switch_def split: option.splits)

lemma validatePredictor_not_duplicate:
  "validatePredictor newClient p projectFileMap = Inl err \<Longrightarrow> \<not> DUPLICATE_ENDPOINT err"
  using validatePredictor_switch_not_duplicate [of newClient p]
  by (auto simp: validatePredictor_def validatePythonPath_def split: sum.splits option.splits if_splits)

lemma validateCompute_not_duplicate:
  "validateCompute cfg c maxMem = (maxMem', Some err) \<Longrightarrow> \<not> DUPLICATE_ENDPOINT err"
  by (auto simp: validateCompute_def validateAvailableCompute_def Let_def split: if_splits option.splits)

lemma validateAPI_duplicate:
  assumes "validateAPI env api projectFileMap virtualServices maxMem = (maxMem', Inl err)"
    and "DUPLICATE_ENDPOINT err"
  shows "\<exists>vs \<in> set virtualServices. serves vs (endpoint_of api) \<and>
           label (vs_Labels vs) ''apiName'' \<noteq> Name api"
proof -
  define api1 where "api1 = (if Endpoint api = None then api\<lparr>Endpoint := Some (''/'' @ Name api)\<rparr> else api)"
  have api1: "endpoint_of api1 = endpoint_of api" "Name api1 = Name api"
    by (auto simp: api1_def endpoint_of_def)
  from assms(1) have v: "(case validatePredictor (NewFromS3Path env) (predictor api1) projectFileMap of
           Inl err \<Rightarrow> (maxMem, Inl (Wrap err [Identify api1, Str PredictorKey]))
         | Inr p \<Rightarrow>
             (case validateCompute (Cluster env) (compute (api1\<lparr>predictor := p\<rparr>)) maxMem of
                   (maxMem', Some err) \<Rightarrow>
                     (maxMem', Inl (Wrap err [Identify (api1\<lparr>predictor := p\<rparr>), Str ComputeKey]))
                 | (maxMem', None) \<Rightarrow>
                     (case validateEndpointCollisions (api1\<lparr>predictor := p\<rparr>) virtualServices of
                        Some err \<Rightarrow> (maxMem', Inl err)
                      | None \<Rightarrow> (maxMem', Inr (api1\<lparr>predictor := p\<rparr>))))) = (maxMem', Inl err)"
    unfolding validateAPI_def Let_def api1_def .
  show ?thesis
  proof (cases "validatePredictor (NewFromS3Path env) (predictor api1) projectFileMap")
    case (Inl e)
    with v assms(2) validatePredictor_not_duplicate [OF Inl] show ?thesis by auto
  next
    case (Inr p)
    define api2 where "api2 = api1\<lparr>predictor := p\<rparr>"
    have "endpoint_of api2 = endpoint_of api1" "Name api2 = Name api1"
      by (simp_all add: api2_def endpoint_of_def split: option.splits)
    with api1 have api2: "endpoint_of api2 = endpoint_of api" "Name api2 = Name api"
      by (simp_all only:)
    obtain m e where c: "validateCompute (Cluster env) (compute api2) maxMem = (m, e)"
      by (cases "validateCompute (Cluster env) (compute api2) maxMem")
    show ?thesis
    proof (cases e)
      case (Some ce)
      with v Inr c assms(2) validateCompute_not_duplicate [of "Cluster env" "compute api2" maxMem m ce]
      show ?thesis by (auto simp: api2_def Let_def)
    next
      case None
      with v Inr c have "validateEndpointCollisions api2 virtualServices = Some err"
        by (simp add: api2_def Let_def split: option.splits)
      from validateEndpointCollisions_duplicate [OF this assms(2)] api2 show ?thesis by simp
    qed
  qed
qed

lemma validateAPIs_loop_duplicate:
  "validateAPIs_loop env projectFileMap virtualServices maxMem apis = Inl err \<Longrightarrow>
   DUPLICATE_ENDPOINT err \<Longrightarrow>
     \<exists>api. Some api \<in> set apis \<and>
       (\<exists>vs \<in> set virtualServices. serves vs (endpoint_of api) \<and>
           label (vs_Labels vs) ''apiName'' \<noteq> Name api)"
proof (induction apis arbitrary: maxMem)
  case Nil
  then show ?case by simp
next
  case (Cons a apis)
  show ?case
  proof (cases a)
    case None
    with Cons.prems show ?thesis by simp
  next
    case (Some api)
    obtain m r where r: "validateAPI env api projectFileMap virtualServices maxMem = (m, r)"
      by (cases "validateAPI env api projectFileMap virtualServices maxMem")
    show ?thesis
    proof (cases r)
      case (Inl e)
      with Some r Cons.prems have "e = err" by simp
      with Inl r Cons.prems(2) validateAPI_duplicate [of env api projectFileMap virtualServices maxMem m err]
      show ?thesis using Some by auto
    next
      case (Inr api')
      with Some r Cons.prems(1)
      have "validateAPIs_loop env projectFileMap virtualServices m apis = Inl err"
        by (simp split: sum.splits)
      from Cons.IH [OF this Cons.prems(2)] show ?thesis by auto
    qed
  qed
qed

lemma validateAPIs_duplicate_endpoint:
  assumes "validateAPIs env order apis projectFileMap = Inl err" and "DUPLICATE_ENDPOINT err"
  shows "\<exists>virtualServices api. ListVirtualServices env = Inr virtualServices \<and> Some api \<in> set apis \<and>
           (\<exists>vs \<in> set virtualServices. serves vs (endpoint_of api) \<and>
              label (vs_Labels vs) ''apiName'' \<noteq> Name api)"
proof -
  have k_err: "\<not> DUPLICATE_ENDPOINT e" if "getValidationK8sResources env = Inl e" for e
    using that by (auto simp: getValidationK8sResources_def split: sum.splits)
  have dups: "findDuplicateNames order apis = Inr []"
    using assms findDuplicateNames_cases [of order apis]
    by (auto simp: validateAPIs_def split: if_splits sum.splits)
  show ?thesis
  proof (cases "getValidationK8sResources env")
    case (Inl e)
    with assms dups k_err [OF Inl] show ?thesis
      by (auto simp: validateAPIs_def split: if_splits)
  next
    case (Inr r)
    obtain virtualServices maxMem where r: "r = (virtualServices, maxMem)" by (cases r)
    with Inr assms dups
    have l: "validateAPIs_loop env projectFileMap virtualServices maxMem apis = Inl err"
      by (auto simp: validateAPIs_def split: if_splits)
    from Inr r have "ListVirtualServices env = Inr virtualServices"
      by (auto simp: getValidationK8sResources_def split: sum.splits)
    with validateAPIs_loop_duplicate [OF l assms(2)] show ?thesis by blast
  qed
qed

text \<open>
  C3, as amended. If two APIs of one manifest have distinct names and the same
  endpoint, and the cluster serves no API at that endpoint, then the pass does not
  fail with a duplicate-endpoint error: whatever error it returns comes from another
  check. The package compares the endpoint of an API only with the endpoints of the
  cluster's virtual services (lemma \<open>validateAPIs_duplicate_endpoint\<close>), never with
  the endpoints of the other APIs of the manifest.
\<close>

theorem validateAPIs_same_endpoint_no_duplicate_error:
  assumes "Name a \<noteq> Name b"
    and "endpoint_of a = endpoint_of b"
    and "ListVirtualServices env = Inr virtualServices"
    and "\<not> cluster_serves virtualServices (endpoint_of a)"
  shows "\<forall>err. validateAPIs env order [Some a, Some b] projectFileMap = Inl err
           \<longrightarrow> \<not> DUPLICATE_ENDPOINT err"
proof (intro allI impI notI)
  fix err
  assume "validateAPIs env order [Some a, Some b] projectFileMap = Inl err" "DUPLICATE_ENDPOINT err"
  from validateAPIs_duplicate_endpoint [OF this] assms(3)
  obtain api vs where "api = a \<or> api = b" "vs \<in> set virtualServices" "serves vs (endpoint_of api)"
    by auto
  with assms(2,4) show False by (auto simp: cluster_serves_def list_ex_iff)
qed

text \<open>
  C3 as stated fails: the manifest of \<open>a\<close> and \<open>b\<close>, both at \<open>/x\<close>, on a cluster
  without virtual services is accepted with both APIs.
\<close>

theorem validateAPIs_same_endpoint_accepted:
  "validateAPIs example_env [''a'', ''b''] same_endpoint_apis example_files = Inr same_endpoint_apis"
  by code_simp

theorem validateAPIs_same_endpoint_no_duplicate_error_witness:
  "Name (python_api ''a'' (Some ''/x'') None 0) \<noteq> Name (python_api ''b'' (Some ''/x'') None 1) \<and>
   endpoint_of (python_api ''a'' (Some ''/x'') None 0) = endpoint_of (python_api ''b'' (Some ''/x'') None 1) \<and>
   ListVirtualServices example_env = Inr [] \<and>
   \<not> cluster_serves [] (endpoint_of (python_api ''a'' (Some ''/x'') None 0)) \<and>
   (\<forall>err. \<not> (validateAPIs example_env [''a'', ''b''] same_endpoint_apis example_files = Inl err \<and>
            DUPLICATE_ENDPOINT err))"
proof -
  have h: "Name (python_api ''a'' (Some ''/x'') None 0) \<noteq> Name (python_api ''b'' (Some ''/x'') None 1)"
    "endpoint_of (python_api ''a'' (Some ''/x'') None 0) = endpoint_of (python_api ''b'' (Some ''/x'') None 1)"
    "ListVirtualServices example_env = Inr []"
    "\<not> cluster_serves [] (endpoint_of (python_api ''a'' (Some ''/x'') None 0))"
    by (simp_all add: python_api_def endpoint_of_def example_env_def cluster_serves_def)
  from validateAPIs_same_endpoint_no_duplicate_error [OF h, of "[''a'', ''b'']" example_files] h
  show ?thesis by (simp add: same_endpoint_apis_def)
qed

subsection \<open>The autoscaler job\<close>

lemma sint_count:
  assumes "n < 2 ^ 31"
  shows "sint (word_of_nat n :: 32 word) = int n"
proof -
  have "sint (word_of_int (int n) :: 32 word) = signed_take_bit (LENGTH(32) - 1) (int n)"
    by (rule sint_sbintrunc')
  also have "\<dots> = int n"
    using assms by (intro signed_take_bit_int_eq_self) auto
  finally show ?thesis by simp
qed

lemma numUpdatedReadyReplicas_loop_count:
  "numUpdatedReadyReplicas_loop deployment readyReplicas pods
     = readyReplicas + word_of_nat (updated_ready deployment pods)"
  by (induction pods arbitrary: readyReplicas) (auto simp: updated_ready_def apiName_def)

lemma numUpdatedReadyReplicas_count:
  assumes "length pods < 2 ^ 31"
  shows "sint (numUpdatedReadyReplicas deployment pods) = int (updated_ready deployment pods)"
proof -
  have "updated_ready deployment pods \<le> length pods" by (simp add: updated_ready_def)
  with assms have "updated_ready deployment pods < 2 ^ 31" by simp
  then show ?thesis
    by (simp add: numUpdatedReadyReplicas_def numUpdatedReadyReplicas_loop_count sint_count)
qed

lemma CreateHPA_created:
  "CreateHPA_failure k name = None \<Longrightarrow> name \<notin> set (hpas k) \<Longrightarrow>
     CreateHPA k name = (k\<lparr>hpas := hpas k @ [name]\<rparr>, None)"
  by (simp add: CreateHPA_def)

lemma CreateHPA_refused:
  "\<not> (CreateHPA_failure k name = None \<and> name \<notin> set (hpas k)) \<Longrightarrow>
     \<exists>err. CreateHPA k name = (k, Some err)"
  by (auto simp: CreateHPA_def split: option.splits)

lemma conditions_loop:
  "fst (foldl (condition_step now deployment) (k, errs) conditions)
     = (if list_ex (dwelled now) conditions \<and> CreateHPA_failure k (apiName deployment) = None \<and>
           apiName deployment \<notin> set (hpas k)
        then k\<lparr>hpas := hpas k @ [apiName deployment]\<rparr> else k)"
proof (induction conditions arbitrary: k errs)
  case Nil
  show ?case by simp
next
  case (Cons c conditions)
  show ?case
  proof (cases "dwelled now c")
    case False
    then have "condition_step now deployment (k, errs) c = (k, errs)"
      by (auto simp: condition_step_def dwelled_def)
    with False Cons.IH [of k errs] show ?thesis by simp
  next
    case True
    show ?thesis
    proof (cases "CreateHPA_failure k (apiName deployment) = None \<and> apiName deployment \<notin> set (hpas k)")
      case created: True
      define k' where "k' = k\<lparr>hpas := hpas k @ [apiName deployment]\<rparr>"
      have "condition_step now deployment (k, errs) c = (k', errs)"
        using True created CreateHPA_created [of k "apiName deployment"]
        by (simp add: condition_step_def dwelled_def apiName_def k'_def)
      moreover have "fst (foldl (condition_step now deployment) (k', errs) conditions) = k'"
        using Cons.IH [of k' errs] by (simp add: k'_def)
      ultimately show ?thesis using True created by (simp add: k'_def)
    next
      case failed: False
      from CreateHPA_refused [OF failed] obtain err where
        "CreateHPA k (label (dep_Labels deployment) ''apiName'') = (k, Some err)"
        by (auto simp: apiName_def)
      with True have "condition_step now deployment (k, errs) c = (k, errs @ [err])"
        by (simp add: condition_step_def dwelled_def)
      then obtain errs' where "condition_step now deployment (k, errs) c = (k, errs')" ..
      with failed Cons.IH [of k errs'] show ?thesis by auto
    qed
  qed
qed

lemma deployment_step_hpas:
  assumes "cache_ok k allPods"
  shows "\<exists>allPods' errs'.
           deployment_step now (k, allPods, errs) deployment
             = (k\<lparr>hpas := hpas_step now k (hpas k) deployment\<rparr>, allPods', errs') \<and>
           cache_ok k allPods'"
proof (cases "apiName deployment \<in> set (hpas k)")
  case True
  then show ?thesis using assms
    by (simp add: deployment_step_def HPAExists_def apiName_def hpas_step_def)
next
  case notin: False
  show ?thesis
  proof (cases "ListPodsWithLabels k")
    case (Inl msg)
    with assms have "allPods = None" by (auto simp: cache_ok_def split: option.splits)
    with Inl notin show ?thesis
      by (simp add: deployment_step_def HPAExists_def apiName_def hpas_step_def installs_def
            up_to_date_def cache_ok_def)
  next
    case (Inr pods)
    with assms have pods: "(case allPods of
                      None \<Rightarrow> (case ListPodsWithLabels k of
                                 Inl msg \<Rightarrow> Inl (ExternalError msg)
                               | Inr pods \<Rightarrow> Inr pods)
                    | Some pods \<Rightarrow> Inr pods) = Inr pods"
      by (auto simp: cache_ok_def split: option.splits)
    show ?thesis
    proof (cases "numUpdatedReadyReplicas deployment pods <s dep_Replicas deployment")
      case True
      with Inr notin pods show ?thesis
        by (simp add: deployment_step_def HPAExists_def apiName_def [symmetric] hpas_step_def
              installs_def up_to_date_def cache_ok_def)
    next
      case False
      obtain k' errs' where f: "foldl (condition_step now deployment) (k, errs)
                               (dep_Conditions deployment) = (k', errs')"
        by (cases "foldl (condition_step now deployment) (k, errs) (dep_Conditions deployment)")
      with conditions_loop [of now deployment k errs "dep_Conditions deployment"]
      have k': "k' = (if list_ex (dwelled now) (dep_Conditions deployment) \<and>
                        CreateHPA_failure k (apiName deployment) = None \<and>
                        apiName deployment \<notin> set (hpas k)
                      then k\<lparr>hpas := hpas k @ [apiName deployment]\<rparr> else k)"
        by simp
      have "deployment_step now (k, allPods, errs) deployment = (k', Some pods, errs')"
        using notin pods False f
        by (simp add: deployment_step_def HPAExists_def apiName_def [symmetric])
      moreover have "k' = k\<lparr>hpas := hpas_step now k (hpas k) deployment\<rparr>"
        using k' notin False Inr by (simp add: hpas_step_def installs_def up_to_date_def)
      ultimately show ?thesis using Inr by (simp add: cache_ok_def)
    qed
  qed
qed

lemma installs_hpas_update [simp]:
  "installs now (k\<lparr>hpas := names\<rparr>) deployment = installs now k deployment"
  by (simp add: installs_def up_to_date_def)

lemma hpas_step_hpas_update [simp]:
  "hpas_step now (k\<lparr>hpas := names'\<rparr>) names deployment = hpas_step now k names deployment"
  by (simp add: hpas_step_def)

lemma cache_ok_hpas_update [simp]:
  "cache_ok (k\<lparr>hpas := names\<rparr>) allPods = cache_ok k allPods"
  by (simp add: cache_ok_def split: option.splits)

lemma deployments_loop:
  assumes "cache_ok k allPods"
  shows "fst (foldl (deployment_step now) (k, allPods, errs) deployments)
           = k\<lparr>hpas := foldl (hpas_step now k) (hpas k) deployments\<rparr>"
  using assms
proof (induction deployments arbitrary: k allPods errs)
  case Nil
  show ?case by simp
next
  case (Cons d deployments)
  from deployment_step_hpas [OF Cons.prems, of now errs d] obtain allPods' errs' where
    step: "deployment_step now (k, allPods, errs) d
             = (k\<lparr>hpas := hpas_step now k (hpas k) d\<rparr>, allPods', errs')"
    and ok: "cache_ok k allPods'"
    by blast
  define k' where "k' = k\<lparr>hpas := hpas_step now k (hpas k) d\<rparr>"
  have ok': "cache_ok k' allPods'" using ok by (simp add: k'_def)
  have "fst (foldl (deployment_step now) (k', allPods', errs') deployments)
          = k'\<lparr>hpas := foldl (hpas_step now k') (hpas k') deployments\<rparr>"
    by (rule Cons.IH [OF ok'])
  also have "\<dots> = k\<lparr>hpas := foldl (hpas_step now k) (hpas_step now k (hpas k) d) deployments\<rparr>"
  proof -
    have "hpas_step now k' = hpas_step now k" by (rule ext, rule ext) (simp add: k'_def)
    then show ?thesis by (simp add: k'_def)
  qed
  finally show ?case using step by (simp add: k'_def)
qed

lemma updateHPAs_hpas:
  "fst (updateHPAs now k deployments) = k\<lparr>hpas := foldl (hpas_step now k) (hpas k) deployments\<rparr>"
proof -
  have "cache_ok k None" by (simp add: cache_ok_def)
  from deployments_loop [OF this, of now "[]" deployments]
  have "fst (foldl (deployment_step now) (k, None, []) deployments)
          = k\<lparr>hpas := foldl (hpas_step now k) (hpas k) deployments\<rparr>" .
  moreover obtain k' allPods errs where
    "foldl (deployment_step now) (k, None, []) deployments = (k', allPods, errs)"
    by (cases "foldl (deployment_step now) (k, None, []) deployments")
  ultimately show ?thesis by (simp add: updateHPAs_def)
qed

lemma hpas_loop_appends:
  "\<exists>new. foldl (hpas_step now k) names deployments = names @ new \<and> distinct new \<and>
     (\<forall>name \<in> set new. name \<notin> set names \<and>
        (\<exists>d \<in> set deployments. apiName d = name \<and> installs now k d))"
proof (induction deployments arbitrary: names)
  case Nil
  show ?case by simp
next
  case (Cons d deployments)
  from Cons.IH [of "hpas_step now k names d"] obtain new where
    new: "foldl (hpas_step now k) (hpas_step now k names d) deployments = hpas_step now k names d @ new"
      "distinct new"
      "\<forall>name \<in> set new. name \<notin> set (hpas_step now k names d) \<and>
         (\<exists>d \<in> set deployments. apiName d = name \<and> installs now k d)"
    by blast
  show ?case
  proof (cases "apiName d \<notin> set names \<and> installs now k d")
    case True
    then have s: "hpas_step now k names d = names @ [apiName d]" by (simp add: hpas_step_def)
    have "foldl (hpas_step now k) names (d # deployments) = names @ (apiName d # new)"
      using new(1) s by simp
    moreover have "distinct (apiName d # new)" using new(2,3) s by auto
    moreover have "\<forall>name \<in> set (apiName d # new). name \<notin> set names \<and>
        (\<exists>d' \<in> set (d # deployments). apiName d' = name \<and> installs now k d')"
      using new(3) s True by auto
    ultimately show ?thesis by blast
  next
    case False
    then have s: "hpas_step now k names d = names" by (auto simp: hpas_step_def)
    have "foldl (hpas_step now k) names (d # deployments) = names @ new"
      using new(1) s by simp
    moreover have "\<forall>name \<in> set new. name \<notin> set names \<and>
        (\<exists>d' \<in> set (d # deployments). apiName d' = name \<and> installs now k d')"
      using new(3) s by auto
    ultimately show ?thesis using new(2) by blast
  qed
qed

lemma hpas_loop_installed:
  "d \<in> set deployments \<Longrightarrow> installs now k d \<Longrightarrow>
     apiName d \<in> set (foldl (hpas_step now k) names deployments)"
proof (induction deployments arbitrary: names)
  case Nil
  then show ?case by simp
next
  case (Cons d' deployments)
  have mono: "set names' \<subseteq> set (foldl (hpas_step now k) names' deployments)" for names'
    using hpas_loop_appends [of now k names' deployments] by auto
  show ?case
  proof (cases "d = d'")
    case True
    with Cons.prems(2) have "apiName d \<in> set (hpas_step now k names d')"
      by (auto simp: hpas_step_def)
    with mono [of "hpas_step now k names d'"] show ?thesis by auto
  next
    case False
    with Cons show ?thesis by simp
  qed
qed

lemma hpas_loop_fixed:
  "(\<forall>d \<in> set deployments. installs now k d \<longrightarrow> apiName d \<in> set names) \<Longrightarrow>
     foldl (hpas_step now k) names deployments = names"
  by (induction deployments) (auto simp: hpas_step_def)


lemma installs_unfold:
  assumes "installs now k d"
  shows "(\<exists>pods. ListPodsWithLabels k = Inr pods \<and>
            sint (dep_Replicas d) \<le> sint (numUpdatedReadyReplicas d pods) \<and>
            (length pods < 2 ^ 31 \<longrightarrow> sint (dep_Replicas d) \<le> int (updated_ready d pods))) \<and>
         (\<exists>c \<in> set (dep_Conditions d).
            cond_Type c = DeploymentProgressing \<and> cond_Status c = ConditionTrue \<and>
            cond_LastUpdateTime c \<noteq> 0 \<and> cond_LastUpdateTime c + 35 * Second < now)"
proof
  from assms obtain pods where pods: "ListPodsWithLabels k = Inr pods"
    "\<not> (numUpdatedReadyReplicas d pods <s dep_Replicas d)"
    by (auto simp: installs_def up_to_date_def split: sum.splits)
  from pods(2) have le: "sint (dep_Replicas d) \<le> sint (numUpdatedReadyReplicas d pods)"
    by (simp add: word_sless_alt)
  then have "length pods < 2 ^ 31 \<longrightarrow> sint (dep_Replicas d) \<le> int (updated_ready d pods)"
    using numUpdatedReadyReplicas_count [of pods d] by auto
  with pods(1) le
  show "\<exists>pods. ListPodsWithLabels k = Inr pods \<and>
            sint (dep_Replicas d) \<le> sint (numUpdatedReadyReplicas d pods) \<and>
            (length pods < 2 ^ 31 \<longrightarrow> sint (dep_Replicas d) \<le> int (updated_ready d pods))"
    by blast
  from assms have "list_ex (dwelled now) (dep_Conditions d)" by (simp add: installs_def)
  then show "\<exists>c \<in> set (dep_Conditions d).
            cond_Type c = DeploymentProgressing \<and> cond_Status c = ConditionTrue \<and>
            cond_LastUpdateTime c \<noteq> 0 \<and> cond_LastUpdateTime c + 35 * Second < now"
    by (auto simp: list_ex_iff dwelled_def)
qed

text \<open>
  C8. A tick of \<open>updateHPAs\<close> changes the cluster only by creating the autoscalers
  \<open>new\<close>, each once. It creates the autoscaler of a name only if no autoscaler
  exists for it, and the name is the API name of a deployment such that the pods are
  listed, the number of ready pods with its API label on the latest pod spec, as
  \<open>numUpdatedReadyReplicas\<close> counts them, is at least the desired replica count (for
  fewer than \<open>2\<^sup>3\<^sup>1\<close> pods that number is the true count \<open>updated_ready\<close>), and the
  deployment has a progressing condition that is true, with a last-update time that
  is not zero and lies more than, so at least, 35 seconds before \<open>now\<close>. A repeat
  tick on the cluster as the first tick left it, at the same instant, creates no
  autoscaler: it leaves the cluster as it is.
\<close>

theorem updateHPAs_creates_autoscaler_only_when_stable:
  "\<exists>new. fst (updateHPAs now k deployments) = k\<lparr>hpas := hpas k @ new\<rparr> \<and> distinct new \<and>
     (\<forall>name \<in> set new.
        \<not> HPAExists k name \<and>
        (\<exists>d \<in> set deployments. apiName d = name \<and>
           (\<exists>pods. ListPodsWithLabels k = Inr pods \<and>
              sint (dep_Replicas d) \<le> sint (numUpdatedReadyReplicas d pods) \<and>
              (length pods < 2 ^ 31 \<longrightarrow> sint (dep_Replicas d) \<le> int (updated_ready d pods))) \<and>
           (\<exists>c \<in> set (dep_Conditions d).
              cond_Type c = DeploymentProgressing \<and> cond_Status c = ConditionTrue \<and>
              cond_LastUpdateTime c \<noteq> 0 \<and> cond_LastUpdateTime c + 35 * Second < now))) \<and>
     fst (updateHPAs now (fst (updateHPAs now k deployments)) deployments)
       = fst (updateHPAs now k deployments)"
proof -
  from hpas_loop_appends [of now k "hpas k" deployments] obtain new where
    new: "foldl (hpas_step now k) (hpas k) deployments = hpas k @ new" "distinct new"
      "\<forall>name \<in> set new. name \<notin> set (hpas k) \<and>
         (\<exists>d \<in> set deployments. apiName d = name \<and> installs now k d)"
    by blast
  define k' where "k' = k\<lparr>hpas := hpas k @ new\<rparr>"
  have first: "fst (updateHPAs now k deployments) = k'"
    using new(1) by (simp add: updateHPAs_hpas k'_def)
  have installed: "apiName d \<in> set (hpas k')" if "d \<in> set deployments" "installs now k d" for d
    using hpas_loop_installed [OF that, of "hpas k"] new(1) by (simp add: k'_def)
  have "foldl (hpas_step now k') (hpas k') deployments = hpas k'"
  proof (rule hpas_loop_fixed, intro ballI impI)
    fix d
    assume "d \<in> set deployments" "installs now k' d"
    then show "apiName d \<in> set (hpas k')" using installed [of d] by (simp add: k'_def)
  qed
  then have second: "fst (updateHPAs now k' deployments) = k'"
    by (simp add: updateHPAs_hpas)
  have only: "\<forall>name \<in> set new.
        \<not> HPAExists k name \<and>
        (\<exists>d \<in> set deployments. apiName d = name \<and>
           (\<exists>pods. ListPodsWithLabels k = Inr pods \<and>
              sint (dep_Replicas d) \<le> sint (numUpdatedReadyReplicas d pods) \<and>
              (length pods < 2 ^ 31 \<longrightarrow> sint (dep_Replicas d) \<le> int (updated_ready d pods))) \<and>
           (\<exists>c \<in> set (dep_Conditions d).
              cond_Type c = DeploymentProgressing \<and> cond_Status c = ConditionTrue \<and>
              cond_LastUpdateTime c \<noteq> 0 \<and> cond_LastUpdateTime c + 35 * Second < now))"
  proof
    fix name
    assume "name \<in> set new"
    with new(3) obtain d where d: "name \<notin> set (hpas k)" "d \<in> set deployments" "apiName d = name"
      "installs now k d"
      by blast
    from installs_unfold [OF d(4)] d(1,2,3)
    show "\<not> HPAExists k name \<and>
        (\<exists>d \<in> set deployments. apiName d = name \<and>
           (\<exists>pods. ListPodsWithLabels k = Inr pods \<and>
              sint (dep_Replicas d) \<le> sint (numUpdatedReadyReplicas d pods) \<and>
              (length pods < 2 ^ 31 \<longrightarrow> sint (dep_Replicas d) \<le> int (updated_ready d pods))) \<and>
           (\<exists>c \<in> set (dep_Conditions d).
              cond_Type c = DeploymentProgressing \<and> cond_Status c = ConditionTrue \<and>
              cond_LastUpdateTime c \<noteq> 0 \<and> cond_LastUpdateTime c + 35 * Second < now))"
      unfolding HPAExists_def by blast
  qed
  show ?thesis
    using first second new(2) only unfolding k'_def by (intro exI [of _ new]) simp
qed

lemma updateHPAs_examples:
  "hpas (fst (updateHPAs (1040 * Second) (example_kubernetes []) [example_deployment])) = [''a'']"
  "hpas (fst (updateHPAs (1040 * Second) (example_kubernetes [''a'']) [example_deployment])) = [''a'']"
  "hpas (fst (updateHPAs (1030 * Second) (example_kubernetes []) [example_deployment])) = []"
  by code_simp+

theorem updateHPAs_creates_autoscaler_only_when_stable_witness:
  "hpas (fst (updateHPAs (1040 * Second) (example_kubernetes []) [example_deployment])) = [''a''] \<and>
   fst (updateHPAs (1040 * Second)
          (fst (updateHPAs (1040 * Second) (example_kubernetes []) [example_deployment]))
          [example_deployment])
     = fst (updateHPAs (1040 * Second) (example_kubernetes []) [example_deployment]) \<and>
   hpas (fst (updateHPAs (1030 * Second) (example_kubernetes []) [example_deployment])) = []"
  using updateHPAs_creates_autoscaler_only_when_stable
          [of "1040 * Second" "example_kubernetes []" "[example_deployment]"]
    updateHPAs_examples
  by blast

text \<open>
  At any instant, a tick creates no autoscaler for a name that has one: it only
  appends names that had none.
\<close>

lemma updateHPAs_no_second_autoscaler:
  "\<exists>new. hpas (fst (updateHPAs now k deployments)) = hpas k @ new \<and> distinct new \<and>
     set new \<inter> set (hpas k) = {}"
proof -
  from hpas_loop_appends [of now k "hpas k" deployments] obtain new where
    "foldl (hpas_step now k) (hpas k) deployments = hpas k @ new" "distinct new"
    "\<forall>name \<in> set new. name \<notin> set (hpas k)"
    by blast
  then have "hpas (fst (updateHPAs now k deployments)) = hpas k @ new \<and> distinct new \<and>
     set new \<inter> set (hpas k) = {}"
    by (auto simp: updateHPAs_hpas)
  then show ?thesis ..
qed

end
